theory Spec2Isabelle
  imports Complex_Main "HOL-Library.Word"
begin

unbundle bit_operations_syntax

section \<open>JavaScript values\<close>

text \<open>
  A JavaScript string is a sequence of UTF-16 code units; \<open>split('')\<close>, \<open>length\<close>,
  \<open>charAt\<close> and \<open>charCodeAt\<close> all work on code units. The output buffer holds bytes.
\<close>

type_synonym jschar = "16 word"
type_synonym jsstring = "jschar list"
type_synonym byte = "8 word"

text \<open>A string literal of the source, whose characters are all below U+0100.\<close>

definition js :: "string \<Rightarrow> jsstring" where
  "js s = map (\<lambda>c. of_nat (of_char c)) s"

text \<open>\<open>Number.prototype.toString(10)\<close> and \<open>toString(16)\<close> on a non-negative integer.\<close>

definition digitChar :: "nat \<Rightarrow> jschar" where
  "digitChar d = (if d < 10 then of_nat (48 + d) else of_nat (87 + d))"

function toStringRadix :: "nat \<Rightarrow> nat \<Rightarrow> jsstring" where
  "toStringRadix r n =
     (if r < 2 \<or> n < r then [digitChar n]
      else toStringRadix r (n div r) @ [digitChar (n mod r)])"
  by pat_completeness auto
termination
  by (relation "measure (\<lambda>(r, n). n)") auto

declare toStringRadix.simps [simp del]

section \<open>utils: checksum, length prefix, text metrics\<close>

text \<open>
  \<open>parseInt(c, 10)\<close> on a one-character string: the digit's value, or NaN (\<open>None\<close>).
  Arithmetic on a NaN operand gives NaN.
\<close>

definition parseInt10 :: "jschar \<Rightarrow> nat option" where
  "parseInt10 c = (if 0x30 \<le> c \<and> c \<le> 0x39 then Some (unat c - 48) else None)"

definition nanAdd :: "nat option \<Rightarrow> nat option \<Rightarrow> nat option" where
  "nanAdd a b = (case a of None \<Rightarrow> None | Some x \<Rightarrow> (case b of None \<Rightarrow> None | Some y \<Rightarrow> Some (x + y)))"

definition nanMul :: "nat option \<Rightarrow> nat \<Rightarrow> nat option" where
  "nanMul a k = (case a of None \<Rightarrow> None | Some x \<Rightarrow> Some (x * k))"

text \<open>
  \<^verbatim>\<open>
  export function getParityBit(str) {
    let parity = 0;
    let reversedCode = str.split('').reverse().join('');
    for (let counter = 0; counter < reversedCode.length; counter += 1) {
      parity += parseInt(reversedCode.charAt(counter), 10) * Math.pow(3, ((counter + 1) % 2));
    }
    return ((10 - (parity % 10)) % 10).toString();
  }
  \<close>
\<close>

definition parityStep :: "jsstring \<Rightarrow> nat \<Rightarrow> nat option \<Rightarrow> nat option" where
  "parityStep reversedCode counter parity =
     nanAdd parity (nanMul (parseInt10 (reversedCode ! counter)) (3 ^ ((counter + 1) mod 2)))"

definition getParityBit :: "jsstring \<Rightarrow> jsstring" where
  "getParityBit str =
     (let reversedCode = rev str;
          parity = fold (parityStep reversedCode) [0..<length reversedCode] (Some 0)
      in case parity of
           None \<Rightarrow> js ''NaN''
         | Some p \<Rightarrow> toStringRadix 10 ((10 - (p mod 10)) mod 10))"

text \<open>
  The checksum as the specification words it: reverse the digit string, weight the
  digit at 1-indexed reversed position \<open>i\<close> by 3 when \<open>i\<close> is odd and by 1 when it is
  even, and take \<open>(10 - (S mod 10)) mod 10\<close>.
\<close>

definition isDigit :: "jschar \<Rightarrow> bool" where
  "isDigit c \<longleftrightarrow> 0x30 \<le> c \<and> c \<le> 0x39"

definition digitValue :: "jschar \<Rightarrow> nat" where
  "digitValue c = unat c - 48"

definition weightedSum :: "jsstring \<Rightarrow> nat" where
  "weightedSum str =
     (\<Sum>i = 1..length str. digitValue (rev str ! (i - 1)) * (if odd i then 3 else 1))"

definition checksumSpec :: "jsstring \<Rightarrow> nat" where
  "checksumSpec str = (10 - (weightedSum str mod 10)) mod 10"


text \<open>
  Functions of the host platform that the code calls and that are not part of the
  repository: \<open>String.prototype.toUpperCase\<close>, the text codec \<open>iconv.encode(str, encoding)\<close>,
  and the UTF-8 decoder behind \<open>Buffer.prototype.toString()\<close>. They are parameters of
  the model.
\<close>

record host =
  toUpperCase :: "jsstring \<Rightarrow> jsstring"
  iconv_encode :: "jsstring \<Rightarrow> jsstring \<Rightarrow> byte list"
  utf8_decode :: "byte list \<Rightarrow> jsstring"

text \<open>\<^verbatim>\<open>export function upperCase(string) { return string.toUpperCase(); }\<close>\<close>

definition upperCase :: "host \<Rightarrow> jsstring \<Rightarrow> jsstring" where
  "upperCase h string = toUpperCase h string"

text \<open>
  Writing a string to a buffer stores its UTF-8 encoding: a surrogate pair is one
  4-byte sequence, a lone surrogate is written as U+FFFD.
\<close>

definition utf8_3 :: "nat \<Rightarrow> byte list" where
  "utf8_3 u = [of_nat (0xE0 + u div 4096), of_nat (0x80 + (u div 64) mod 64), of_nat (0x80 + u mod 64)]"

definition utf8_4 :: "nat \<Rightarrow> byte list" where
  "utf8_4 u = [of_nat (0xF0 + u div 262144), of_nat (0x80 + (u div 4096) mod 64),
               of_nat (0x80 + (u div 64) mod 64), of_nat (0x80 + u mod 64)]"

definition isLead :: "jschar \<Rightarrow> bool" where
  "isLead c \<longleftrightarrow> 0xD800 \<le> c \<and> c < 0xDC00"

definition isTrail :: "jschar \<Rightarrow> bool" where
  "isTrail c \<longleftrightarrow> 0xDC00 \<le> c \<and> c < 0xE000"

definition utf8_unit :: "jschar \<Rightarrow> byte list" where
  "utf8_unit c =
     (let u = unat c in
      if u < 0x80 then [of_nat u]
      else if u < 0x800 then [of_nat (0xC0 + u div 64), of_nat (0x80 + u mod 64)]
      else if isLead c \<or> isTrail c then utf8_3 0xFFFD
      else utf8_3 u)"

fun utf8 :: "jsstring \<Rightarrow> byte list" where
  "utf8 [] = []"
| "utf8 [c] = utf8_unit c"
| "utf8 (c # d # cs) =
     (if isLead c \<and> isTrail d
      then utf8_4 (0x10000 + (unat c - 0xD800) * 1024 + (unat d - 0xDC00)) @ utf8 cs
      else utf8_unit c @ utf8 (d # cs))"

text \<open>
  \<^verbatim>\<open>
  export function codeLength(str) {
    let buff = Buffer.from((str.length).toString(16), 'hex');
    return buff.toString();
  }
  \<close>
  \<open>Buffer.from(s, 'hex')\<close> decodes two hex digits to one byte and drops a trailing single
  digit. \<open>buff.toString()\<close> decodes UTF-8: bytes below 0x80 are the code units themselves,
  any other buffer goes to the host's decoder.
\<close>

definition hexVal :: "jschar \<Rightarrow> nat option" where
  "hexVal c =
     (if 0x30 \<le> c \<and> c \<le> 0x39 then Some (unat c - 0x30)
      else if 0x61 \<le> c \<and> c \<le> 0x66 then Some (unat c - 0x61 + 10)
      else if 0x41 \<le> c \<and> c \<le> 0x46 then Some (unat c - 0x41 + 10)
      else None)"

fun bufferFromHex :: "jsstring \<Rightarrow> byte list" where
  "bufferFromHex (a # b # cs) =
     (case hexVal a of
        None \<Rightarrow> []
      | Some x \<Rightarrow> (case hexVal b of None \<Rightarrow> [] | Some y \<Rightarrow> of_nat (16 * x + y) # bufferFromHex cs))"
| "bufferFromHex _ = []"

definition bufferToString :: "host \<Rightarrow> byte list \<Rightarrow> jsstring" where
  "bufferToString h buff = (if list_all (\<lambda>b. b < 0x80) buff then map ucast buff else utf8_decode h buff)"

definition codeLength :: "host \<Rightarrow> jsstring \<Rightarrow> jsstring" where
  "codeLength h str = (let buff = bufferFromHex (toStringRadix 16 (length str)) in bufferToString h buff)"

text \<open>
  \<^verbatim>\<open>
  export function charLength(char) {
    const code = char.charCodeAt(0);
    return code > 0x7f && code <= 0xffff ? 2 : 1; // More than 2bytes count as 2
  }
  export function textLength(str) {
    return str.split('').reduce((accLen, char) => { return accLen + charLength(char); }, 0)
  }
  export function textSubstring(str, start, end) {
    let accLen = 0;
    return str.split('').reduce((accStr, char) => {
      accLen = accLen + charLength(char);
      return accStr + (accLen > start && (!end || accLen <= end) ? char : '');
    }, '')
  }
  \<close>
  Widths are JavaScript numbers; the model computes with rationals. An absent \<open>end\<close>
  (\<open>undefined\<close>) is \<open>None\<close>; \<open>!end\<close> also holds for the number 0.
\<close>

definition charLength :: "jschar \<Rightarrow> nat" where
  "charLength code = (if code > 0x7f \<and> code \<le> 0xffff then 2 else 1)"

definition textLength :: "jsstring \<Rightarrow> nat" where
  "textLength str = foldl (\<lambda>accLen char. accLen + charLength char) 0 str"

definition notEnd :: "rat option \<Rightarrow> bool" where
  "notEnd e = (case e of None \<Rightarrow> True | Some v \<Rightarrow> v = 0)"

definition withinEnd :: "nat \<Rightarrow> rat option \<Rightarrow> bool" where
  "withinEnd accLen e = (case e of None \<Rightarrow> False | Some v \<Rightarrow> of_nat accLen \<le> v)"

definition substringStep :: "rat \<Rightarrow> rat option \<Rightarrow> jsstring \<times> nat \<Rightarrow> jschar \<Rightarrow> jsstring \<times> nat" where
  "substringStep start e acc char =
     (let accLen = snd acc + charLength char
      in (fst acc @ (if of_nat accLen > start \<and> (notEnd e \<or> withinEnd accLen e) then [char] else []),
          accLen))"

definition textSubstring :: "jsstring \<Rightarrow> rat \<Rightarrow> rat option \<Rightarrow> jsstring" where
  "textSubstring str start e = fst (foldl (substringStep start e) ([], 0) str)"

section \<open>The command table\<close>

text \<open>
  The command table (\<open>./commands\<close>) is not among the sources; it is a parameter of the
  model. An entry is the string that \<open>buffer.write\<close> stores for it. A table indexed by a
  computed key (\<open>BARCODE_FORMAT['BARCODE_' + type]\<close>) is a function of the computed part
  of the key, giving what the buffer stores for that entry, present or not.
\<close>

datatype jsval = JUndefined | JNull | JBool bool | JNum int | JStr jsstring | JObj "(string \<times> jsval) list"

record text_format =
  TXT_NORMAL :: jsstring
  TXT_BOLD_ON :: jsstring
  TXT_BOLD_OFF :: jsstring
  TXT_ITALIC_ON :: jsstring
  TXT_ITALIC_OFF :: jsstring
  TXT_UNDERL_OFF :: jsstring
  TXT_UNDERL_ON :: jsstring
  TXT_UNDERL2_ON :: jsstring
  TXT_CUSTOM_SIZE :: "nat \<Rightarrow> nat \<Rightarrow> jsstring"

record barcode_format =
  BARCODE_WIDTH :: "jsval \<Rightarrow> jsstring option"
  BARCODE_WIDTH_DEFAULT :: jsstring
  BARCODE_HEIGHT :: "int \<Rightarrow> jsstring"
  BARCODE_HEIGHT_DEFAULT :: jsstring
  BARCODE_FONT :: "jsstring \<Rightarrow> jsstring"
  BARCODE_TXT :: "jsstring \<Rightarrow> jsstring"
  BARCODE_TYPE :: "jsstring \<Rightarrow> jsstring"

record code2d_format =
  TYPE_QR :: jsstring
  CODE2D :: jsstring
  QR_LEVEL :: "jsstring \<Rightarrow> jsstring"

record qsprinter_format =
  QS_BARCODE_MODE_ON :: jsstring
  QS_BARCODE_MODE_OFF :: jsstring
  QS_BARCODE_HEIGHT_DEFAULT :: jsstring
  PIXEL_SIZE_CMD :: jsstring
  PIXEL_SIZE_MIN :: int
  PIXEL_SIZE_MAX :: int
  PIXEL_SIZE_DEFAULT :: int
  VERSION_CMD :: jsstring
  VERSION_MIN :: int
  VERSION_MAX :: int
  VERSION_DEFAULT :: int
  LEVEL_CMD :: jsstring
  LEVEL_OPTIONS :: "jsstring \<Rightarrow> jsstring"
  SAVEBUF_CMD_P1 :: jsstring
  SAVEBUF_CMD_P2 :: jsstring
  PRINTBUF_CMD_P1 :: jsstring
  PRINTBUF_CMD_P2 :: jsstring
  LEN_OFFSET :: int

record commands =
  EOL :: jsstring
  LS_DEFAULT :: jsstring
  LS_SET :: jsstring
  TEXT_FORMAT :: text_format
  BARCODE_FORMAT :: barcode_format
  CODE2D_FORMAT :: code2d_format
  QSPRINTER :: qsprinter_format
  BITMAP_FORMAT :: "jsstring \<Rightarrow> jsstring"
  GSV0_FORMAT :: "jsstring \<Rightarrow> jsstring"

section \<open>The printer session\<close>

text \<open>
  The session holds the output buffer, the current codec, the width in columns and
  the model tag (\<open>null\<close> is \<open>None\<close>). A method mutates the session and returns it; when it
  throws, the session stays as it was at the throw, with the bytes written before the
  throw in the buffer: \<open>Raise e p\<close> is the error \<open>e\<close> thrown with the session left as \<open>p\<close>.
  The message of an error that the engine or the buffer throws is the engine's; the
  model gives it a name.
\<close>

record Printer =
  buffer :: "byte list"
  encoding :: jsstring
  width :: nat
  model :: "jsstring option"

datatype error = TypeError string | RangeError string | Error string

datatype outcome = Normal Printer | Raise error Printer

text \<open>One statement after another: the second runs on the session the first returned.\<close>

definition andThen :: "outcome \<Rightarrow> (Printer \<Rightarrow> outcome) \<Rightarrow> outcome" where
  "andThen r f = (case r of Normal p \<Rightarrow> f p | Raise e p \<Rightarrow> Raise e p)"

definition bufferWrite :: "jsstring \<Rightarrow> Printer \<Rightarrow> Printer" where
  "bufferWrite str p = p\<lparr>buffer := buffer p @ utf8 str\<rparr>"

definition writeBuffer :: "byte list \<Rightarrow> Printer \<Rightarrow> Printer" where
  "writeBuffer bs p = p\<lparr>buffer := buffer p @ bs\<rparr>"

text \<open>
  \<open>writeUInt8\<close> and \<open>writeUInt16LE\<close> of the buffer check the range of the value: an integer
  outside the field's range throws a RangeError and nothing is stored.
\<close>

definition writeUInt8 :: "int \<Rightarrow> Printer \<Rightarrow> outcome" where
  "writeUInt8 n p =
     (if 0 \<le> n \<and> n \<le> 255 then Normal (p\<lparr>buffer := buffer p @ [of_int n]\<rparr>)
      else Raise (RangeError ''value is out of range'') p)"

definition writeUInt16LE :: "int \<Rightarrow> Printer \<Rightarrow> outcome" where
  "writeUInt16LE n p =
     (if 0 \<le> n \<and> n \<le> 65535 then Normal (p\<lparr>buffer := buffer p @ [of_int n, of_int (n div 256)]\<rparr>)
      else Raise (RangeError ''value is out of range'') p)"

text \<open>
  \<open>utils.upperCase(v)\<close> on any value: only a string has the method \<open>toUpperCase\<close>; on any
  other value the call throws a TypeError. \<open>writeUpper h table v\<close> is
  \<open>this.buffer.write(table[utils.upperCase(v)])\<close>.
\<close>

definition upperCaseVal :: "host \<Rightarrow> jsval \<Rightarrow> error + jsstring" where
  "upperCaseVal h v =
     (case v of
        JStr string \<Rightarrow> Inr (upperCase h string)
      | _ \<Rightarrow> Inl (TypeError ''string.toUpperCase is not a function''))"

definition writeUpper :: "host \<Rightarrow> (jsstring \<Rightarrow> jsstring) \<Rightarrow> jsval \<Rightarrow> Printer \<Rightarrow> outcome" where
  "writeUpper h table v p =
     (case upperCaseVal h v of
        Inl e \<Rightarrow> Raise e p
      | Inr key \<Rightarrow> Normal (bufferWrite (table key) p))"

text \<open>
  \<^verbatim>\<open>
  lineSpace(n) {
    if (n == null) { this.buffer.write(_.LINE_SPACING.LS_DEFAULT); }
    else { this.buffer.write(_.LINE_SPACING.LS_SET); this.buffer.writeUInt8(n); }
    return this;
  }
  \<close>
\<close>

definition lineSpace :: "commands \<Rightarrow> int option \<Rightarrow> Printer \<Rightarrow> outcome" where
  "lineSpace c n p =
     (case n of
        None \<Rightarrow> Normal (bufferWrite (LS_DEFAULT c) p)
      | Some v \<Rightarrow> writeUInt8 v (bufferWrite (LS_SET c) p))"

section \<open>Barcode\<close>

text \<open>
  The loosely typed arguments. \<open>typeof\<close> of \<open>null\<close> is \<open>'object'\<close>. Function values are not
  modelled.
\<close>

definition typeof :: "jsval \<Rightarrow> string" where
  "typeof v =
     (case v of
        JUndefined \<Rightarrow> ''undefined''
      | JNull \<Rightarrow> ''object''
      | JBool b \<Rightarrow> ''boolean''
      | JNum n \<Rightarrow> ''number''
      | JStr s \<Rightarrow> ''string''
      | JObj fs \<Rightarrow> ''object'')"

definition truthy :: "jsval \<Rightarrow> bool" where
  "truthy v =
     (case v of
        JUndefined \<Rightarrow> False
      | JNull \<Rightarrow> False
      | JBool b \<Rightarrow> b
      | JNum n \<Rightarrow> n \<noteq> 0
      | JStr s \<Rightarrow> s \<noteq> []
      | JObj fs \<Rightarrow> True)"

text \<open>\<open>a || b\<close> on values, and on a string that may be absent.\<close>

definition jsOr :: "jsval \<Rightarrow> jsval \<Rightarrow> jsval" where
  "jsOr a b = (if truthy a then a else b)"

definition strOr :: "jsstring option \<Rightarrow> jsstring \<Rightarrow> jsstring" where
  "strOr a b = (case a of None \<Rightarrow> b | Some v \<Rightarrow> if v = [] then b else v)"

text \<open>
  The rest arguments \<open>...optionsOrLegacy\<close>: the first, the third and the fourth are any
  values (an absent one is \<open>undefined\<close>); the second, read only as the height, is a
  number when present.
\<close>

record barcode_rest =
  rest0 :: jsval
  rest1 :: "int option"
  rest2 :: jsval
  rest3 :: jsval

record barcode_options =
  opt_width :: jsval
  opt_height :: "int option"
  opt_position :: jsval
  opt_font :: jsval
  opt_includeParity :: jsval

text \<open>
  \<^verbatim>\<open>
  static isLegacyBarcodeOptions(optionsOrLegacy) {
    return typeof optionsOrLegacy[0] === 'object';
  }
  \<close>
\<close>

definition isLegacyBarcodeOptions :: "barcode_rest \<Rightarrow> bool" where
  "isLegacyBarcodeOptions optionsOrLegacy \<longleftrightarrow> typeof (rest0 optionsOrLegacy) = ''object''"

text \<open>
  \<^verbatim>\<open>
    let options;
    if (Printer.isLegacyBarcodeOptions(optionsOrLegacy)) {
      options = { width: optionsOrLegacy[0], height: optionsOrLegacy[1],
        position: optionsOrLegacy[2], font: optionsOrLegacy[3], includeParity: true };
    } else [options] = optionsOrLegacy;
    options.font = options.font || 'a';
    options.position = options.position || 'blw';
    options.includeParity = options.includeParity || true;
  \<close>
  In the other branch \<open>options\<close> is \<open>undefined\<close> or a primitive value, and the assignment
  \<open>options.font = ...\<close> throws a TypeError (the module is in strict mode); its message
  is the engine's, the model gives it a name.
\<close>

definition resolveOptions :: "barcode_rest \<Rightarrow> error + barcode_options" where
  "resolveOptions optionsOrLegacy =
     (if isLegacyBarcodeOptions optionsOrLegacy then
        (let includeParity = JBool True;
             font = jsOr (rest3 optionsOrLegacy) (JStr (js ''a''));
             position = jsOr (rest2 optionsOrLegacy) (JStr (js ''blw''));
             includeParity = jsOr includeParity (JBool True)
         in Inr \<lparr>opt_width = rest0 optionsOrLegacy, opt_height = rest1 optionsOrLegacy,
                 opt_position = position, opt_font = font, opt_includeParity = includeParity\<rparr>)
      else Inl (TypeError ''cannot set property font of options''))"

text \<open>
  \<open>code.toString(10)\<close>: a string is itself. A number is a non-negative integer below
  \<open>2 ^ 53\<close>, the range in which a JavaScript number holds every integer exactly; its
  string is its decimal digits (the exponent form starts at \<open>10 ^ 21\<close>, above this range).
\<close>

datatype barcode_code = CodeString jsstring | CodeNumber "53 word"

definition codeToString :: "barcode_code \<Rightarrow> jsstring" where
  "codeToString code =
     (case code of CodeString str \<Rightarrow> str | CodeNumber n \<Rightarrow> toStringRadix 10 (unat n))"

definition isQsprinter :: "Printer \<Rightarrow> bool" where
  "isQsprinter p \<longleftrightarrow> model p = Some (js ''qsprinter'')"

text \<open>\<open>options.height >= 1 && options.height <= 255\<close>: the height when the test holds.\<close>

definition heightInRange :: "int option \<Rightarrow> int option" where
  "heightInRange height =
     (case height of None \<Rightarrow> None | Some v \<Rightarrow> if v \<ge> 1 \<and> v \<le> 255 then Some v else None)"

text \<open>
  The commands written before the payload (source lines 472 to 508). The font, the
  text position and the type are upper-cased one after the other, each just before
  its command is written.
\<close>

definition normalizeType :: "jsstring \<Rightarrow> jsstring" where
  "normalizeType normalizedType =
     (if normalizedType = js ''UPC-A'' then js ''UPC_A''
      else if normalizedType = js ''UPC-E'' then js ''UPC_E''
      else normalizedType)"

definition barcodePreamble :: "host \<Rightarrow> commands \<Rightarrow> barcode_options \<Rightarrow> jsval \<Rightarrow> Printer \<Rightarrow> outcome" where
  "barcodePreamble h c options type p =
     (let bf = BARCODE_FORMAT c;
          qs = QSPRINTER c;
          p1 = (if isQsprinter p then bufferWrite (QS_BARCODE_MODE_ON qs) p else p);
          p2 = (if isQsprinter p then p1
                else (case BARCODE_WIDTH bf (opt_width options) of
                        Some w \<Rightarrow> bufferWrite w p1
                      | None \<Rightarrow> bufferWrite (BARCODE_WIDTH_DEFAULT bf) p1));
          p3 = (case heightInRange (opt_height options) of
                  Some height \<Rightarrow> bufferWrite (BARCODE_HEIGHT bf height) p2
                | None \<Rightarrow>
                    if isQsprinter p then bufferWrite (QS_BARCODE_HEIGHT_DEFAULT qs) p2
                    else bufferWrite (BARCODE_HEIGHT_DEFAULT bf) p2);
          p4 = (if isQsprinter p then Normal p3
                else writeUpper h (BARCODE_FONT bf) (opt_font options) p3);
          p5 = andThen p4 (writeUpper h (BARCODE_TXT bf) (opt_position options))
      in andThen p5 (writeUpper h (\<lambda>normalizedType. BARCODE_TYPE bf (normalizeType normalizedType)) type))"

text \<open>The payload string of source lines 509 to 517.\<close>

definition barcodePayload :: "host \<Rightarrow> barcode_options \<Rightarrow> jsval \<Rightarrow> jsstring \<Rightarrow> jsstring" where
  "barcodePayload h options type convertCode =
     (let parityBit = (if truthy (opt_includeParity options)
                       then (if type = JStr (js ''EAN13'') \<or> type = JStr (js ''EAN8'')
                             then getParityBit convertCode else [])
                       else []);
          codeLength' = (if type = JStr (js ''CODE128'') \<or> type = JStr (js ''CODE93'')
                         then codeLength h convertCode else [])
      in codeLength' @ convertCode @ (if truthy (opt_includeParity options) then parityBit else []) @ [0])"

text \<open>
  \<open>type\<close> is any value. The comparisons \<open>type === 'EAN13'\<close> hold of that string only, and
  so do \<open>type == 'CODE128'\<close> and \<open>type == 'CODE93'\<close> on the values of the model. A type that
  is not a string passes the three checks; the call then throws at
  \<open>utils.upperCase(type)\<close>, after the commands before it were written.
\<close>

definition barcode ::
  "host \<Rightarrow> commands \<Rightarrow> Printer \<Rightarrow> barcode_code \<Rightarrow> jsval \<Rightarrow> barcode_rest \<Rightarrow> outcome" where
  "barcode h c p code type optionsOrLegacy =
     (case resolveOptions optionsOrLegacy of
        Inl e \<Rightarrow> Raise e p
      | Inr options \<Rightarrow>
          (let convertCode = codeToString code in
           if typeof type = ''undefined'' \<or> type = JNull
           then Raise (TypeError ''barcode type is required'') p
           else if type = JStr (js ''EAN13'') \<and> length convertCode \<noteq> 12
           then Raise (Error ''EAN13 Barcode type requires code length 12'') p
           else if type = JStr (js ''EAN8'') \<and> length convertCode \<noteq> 7
           then Raise (Error ''EAN8 Barcode type requires code length 7'') p
           else
             andThen (barcodePreamble h c options type p)
               (\<lambda>p6. let p7 = bufferWrite (barcodePayload h options type convertCode) p6
                     in Normal (if isQsprinter p then bufferWrite (QS_BARCODE_MODE_OFF (QSPRINTER c)) p7
                                else p7))))"

section \<open>Two-dimensional code\<close>

text \<open>
  \<open>version\<close> and \<open>size\<close> are numbers when present, \<open>level\<close> is any value (\<open>undefined\<close> when
  absent). \<open>numOr v d\<close> is \<open>v || d\<close>. \<open>clampParam\<close> is the source's chain
  \<^verbatim>\<open>
      if (!size || (size && typeof size !== 'number')) size = DEFAULT;
      else if (size && size < MIN) size = MIN;
      else if (size && size > MAX) size = MAX;
  \<close>
  on a number or an absent value.
\<close>

definition numOr :: "int option \<Rightarrow> int \<Rightarrow> int" where
  "numOr v d = (case v of None \<Rightarrow> d | Some n \<Rightarrow> if n = 0 then d else n)"

definition clampParam :: "int option \<Rightarrow> int \<Rightarrow> int \<Rightarrow> int \<Rightarrow> int" where
  "clampParam v dflt mn mx =
     (case v of
        None \<Rightarrow> dflt
      | Some n \<Rightarrow> if n = 0 then dflt else if n < mn then mn else if n > mx then mx else n)"

text \<open>
  The branch of a model other than \<open>'qsprinter'\<close> (source lines 534 to 542), and the
  branch of \<open>'qsprinter'\<close> after its length check (source lines 549 to 584).
\<close>

definition qrcodeGeneric ::
  "host \<Rightarrow> commands \<Rightarrow> Printer \<Rightarrow> jsstring \<Rightarrow> int option \<Rightarrow> jsval \<Rightarrow> int option \<Rightarrow> outcome" where
  "qrcodeGeneric h c p content version level size' =
     (let cf = CODE2D_FORMAT c;
          p1 = bufferWrite (TYPE_QR cf) p;
          p2 = bufferWrite (CODE2D cf) p1
      in andThen (writeUInt8 (numOr version 3) p2)
        (\<lambda>p3. andThen (writeUpper h (QR_LEVEL cf) (jsOr level (JStr (js ''L''))) p3)
        (\<lambda>p4. andThen (writeUInt8 (numOr size' 6) p4)
        (\<lambda>p5. andThen (writeUInt16LE (int (length content)) p5)
        (\<lambda>p6. Normal (bufferWrite content p6))))))"

definition qrcodeQsprinter ::
  "host \<Rightarrow> commands \<Rightarrow> Printer \<Rightarrow> byte list \<Rightarrow> int option \<Rightarrow> jsval \<Rightarrow> int option \<Rightarrow> outcome" where
  "qrcodeQsprinter h c p dataRaw version level size' =
     (let qs = QSPRINTER c;
          size1 = clampParam size' (PIXEL_SIZE_DEFAULT qs) (PIXEL_SIZE_MIN qs) (PIXEL_SIZE_MAX qs);
          version1 = clampParam version (VERSION_DEFAULT qs) (VERSION_MIN qs) (VERSION_MAX qs)
      in andThen (writeUInt8 size1 (bufferWrite (PIXEL_SIZE_CMD qs) p))
        (\<lambda>p1. andThen (writeUInt8 version1 (bufferWrite (VERSION_CMD qs) p1))
        (\<lambda>p2. andThen (writeUpper h (LEVEL_OPTIONS qs) (jsOr level (JStr (js ''L'')))
                          (bufferWrite (LEVEL_CMD qs) p2))
        (\<lambda>p3. andThen (writeUInt16LE (int (length dataRaw) + LEN_OFFSET qs)
                          (bufferWrite (SAVEBUF_CMD_P1 qs) p3))
        (\<lambda>p5. andThen (writeUInt16LE (int (length dataRaw) + LEN_OFFSET qs)
                          (bufferWrite (PRINTBUF_CMD_P1 qs)
                             (writeBuffer dataRaw (bufferWrite (SAVEBUF_CMD_P2 qs) p5))))
        (\<lambda>p9. Normal (bufferWrite (PRINTBUF_CMD_P2 qs) p9)))))))"

text \<open>
  \<^verbatim>\<open>
  qrcode(content, version, level, size) {
    if (this._model !== 'qsprinter') { ... }
    else {
      const dataRaw = iconv.encode(content, 'utf8');
      if (dataRaw.length < 1 && dataRaw.length > 2710) {
        throw new Error('Invalid code length in byte. Must be between 1 and 2710');
      }
      ...
  \<close>
\<close>

definition qrcode ::
  "host \<Rightarrow> commands \<Rightarrow> Printer \<Rightarrow> jsstring \<Rightarrow> int option \<Rightarrow> jsval \<Rightarrow> int option \<Rightarrow> outcome" where
  "qrcode h c p content version level size' =
     (if \<not> isQsprinter p then qrcodeGeneric h c p content version level size'
      else
        (let dataRaw = utf8 content in
         if length dataRaw < 1 \<and> length dataRaw > 2710
         then Raise (Error ''Invalid code length in byte. Must be between 1 and 2710'') p
         else qrcodeQsprinter h c p dataRaw version level size'))"

section \<open>Monochrome image\<close>

text \<open>
  A \<open>PrintImage\<close> holds the size of the pixel grid and \<open>data\<close>, the row-major ink mask.
  Reading \<open>this.data[i]\<close> past the end gives \<open>undefined\<close>, which counts as false.
\<close>

record PrintImage =
  size_width :: nat
  size_height :: nat
  data :: "bool list"

definition dataAt :: "PrintImage \<Rightarrow> nat \<Rightarrow> bool" where
  "dataAt img i \<longleftrightarrow> i < length (data img) \<and> data img ! i"

text \<open>
  A JavaScript array of numbers: an element may be a hole (\<open>None\<close>), which reads as
  \<open>undefined\<close>. An assignment past the end extends the array, leaving holes.
\<close>

type_synonym jsarray = "nat option list"

definition arrGet :: "jsarray \<Rightarrow> nat \<Rightarrow> nat option" where
  "arrGet xs i = (if i < length xs then xs ! i else None)"

definition arrSet :: "jsarray \<Rightarrow> nat \<Rightarrow> nat \<Rightarrow> jsarray" where
  "arrSet xs i v =
     (if i < length xs then xs[i := Some v]
      else xs @ replicate (i - length xs) None @ [Some v])"

text \<open>
  \<open>if (a[i] === undefined) a[i] = 0;\<close> and then \<open>a[i] += k\<close>, which both loops do on an
  element that the first statement has defined.
\<close>

definition arrInit :: "jsarray \<Rightarrow> nat \<Rightarrow> jsarray" where
  "arrInit xs i = (if arrGet xs i = None then arrSet xs i 0 else xs)"

definition arrAdd :: "jsarray \<Rightarrow> nat \<Rightarrow> nat \<Rightarrow> jsarray" where
  "arrAdd xs i k = (case arrGet xs i of Some v \<Rightarrow> arrSet xs i (v + k) | None \<Rightarrow> xs)"

text \<open>\<open>Math.ceil(a / b)\<close> for a positive \<open>b\<close>.\<close>

definition ceilDiv :: "nat \<Rightarrow> nat \<Rightarrow> nat" where
  "ceilDiv a b = (a + b - 1) div b"

text \<open>
  \<^verbatim>\<open>
   toBitmap(density = 24) {
     const result = [];
     let x, y, b, l, i;
     const c = density / 8;
     let n = Math.ceil(this.size.height / density);
     for (y = 0; y < n; y++) {
       const ld = result[y] = [];
       for (x = 0; x < this.size.width; x++) {
         for (b = 0; b < density; b++) {
           i = x * c + (b >> 3);
           if (ld[i] === undefined) ld[i] = 0;
           l = y * density + b;
           if (l < this.size.height) {
             if (this.data[l * this.size.width + x]) {
               ld[i] += (0x80 >> (b & 0x7));
             }
           }
         }
       }
     }
     return { data: result, density: density };
   }
  \<close>
  The density is a positive multiple of 8 (\<open>image\<close> passes 8 or 24), so \<open>c\<close> is the
  integer \<open>density div 8\<close>.
\<close>

record bitmap =
  bitmap_data :: "jsarray list"
  bitmap_density :: nat

definition bitmapStep :: "PrintImage \<Rightarrow> nat \<Rightarrow> nat \<Rightarrow> nat \<Rightarrow> nat \<Rightarrow> jsarray \<Rightarrow> jsarray" where
  "bitmapStep img density y x b ld =
     (let c = density div 8;
          i = x * c + drop_bit 3 b;
          ld1 = arrInit ld i;
          l = y * density + b
      in if l < size_height img \<and> dataAt img (l * size_width img + x)
         then arrAdd ld1 i (drop_bit (b AND 0x7) 0x80)
         else ld1)"

definition bitmapLine :: "PrintImage \<Rightarrow> nat \<Rightarrow> nat \<Rightarrow> jsarray" where
  "bitmapLine img density y =
     fold (\<lambda>x ld. fold (bitmapStep img density y x) [0..<density] ld) [0..<size_width img] []"

definition toBitmap :: "PrintImage \<Rightarrow> nat \<Rightarrow> bitmap" where
  "toBitmap img density =
     (let n = ceilDiv (size_height img) density
      in \<lparr>bitmap_data = map (bitmapLine img density) [0..<n], bitmap_density = density\<rparr>)"

text \<open>
  \<^verbatim>\<open>
   toRaster() {
     const result = [];
     const {width, height} = this.size;
     const n = Math.ceil(width / 8);
     for (let y = 0; y < height; y++) {
       for (let x = 0; x < n; x++) {
         for (let b = 0; b < 8; b++) {
           const i = x * 8 + b;
           if (result[y * n + x] === undefined) { result[y * n + x] = 0; }
           const c = x * 8 + b;
           if (c < width) {
             if (this.data[y * width + i]) {
               result[y * n + x] += (0x80 >> (b & 0x7));
             }
           }
         }
       }
     }
     return { data: result, width: n, height: height };
   }
  \<close>
\<close>

record raster_image =
  raster_data :: jsarray
  raster_width :: nat
  raster_height :: nat

definition rasterStep :: "PrintImage \<Rightarrow> nat \<Rightarrow> nat \<Rightarrow> nat \<Rightarrow> nat \<Rightarrow> jsarray \<Rightarrow> jsarray" where
  "rasterStep img n y x b result =
     (let i = x * 8 + b;
          result1 = arrInit result (y * n + x);
          c = x * 8 + b
      in if c < size_width img \<and> dataAt img (y * size_width img + i)
         then arrAdd result1 (y * n + x) (drop_bit (b AND 0x7) 0x80)
         else result1)"

definition toRaster :: "PrintImage \<Rightarrow> raster_image" where
  "toRaster img =
     (let n = ceilDiv (size_width img) 8;
          result = fold (\<lambda>y r. fold (\<lambda>x r. fold (rasterStep img n y x) [0..<8] r) [0..<n] r)
                     [0..<size_height img] []
      in \<lparr>raster_data = result, raster_width = n, raster_height = size_height img\<rparr>)"

text \<open>
  Reading the projections back, as the printer does: the bit \<open>0x80 >> b\<close> of a stored
  byte.
\<close>

definition bitSet :: "nat option \<Rightarrow> nat \<Rightarrow> bool" where
  "bitSet e b = (case e of None \<Rightarrow> False | Some v \<Rightarrow> odd (v div (0x80 div 2 ^ b)))"

definition decodeBitmap :: "bitmap \<Rightarrow> nat \<Rightarrow> nat \<Rightarrow> nat \<Rightarrow> bool" where
  "decodeBitmap bm y x b =
     bitSet (arrGet (bitmap_data bm ! y) (x * (bitmap_density bm div 8) + b div 8)) (b mod 8)"

definition decodeRaster :: "raster_image \<Rightarrow> nat \<Rightarrow> nat \<Rightarrow> nat \<Rightarrow> bool" where
  "decodeRaster r y x b = bitSet (arrGet (raster_data r) (y * raster_width r + x)) b"

section \<open>Image and raster commands\<close>

text \<open>
  Writing an array to the buffer stores one byte per element; a hole is stored as 0.
\<close>

definition elemByte :: "nat option \<Rightarrow> byte" where
  "elemByte e = (case e of None \<Rightarrow> 0 | Some v \<Rightarrow> of_nat v)"

definition writeArray :: "jsarray \<Rightarrow> Printer \<Rightarrow> Printer" where
  "writeArray xs p = p\<lparr>buffer := buffer p @ map elemByte xs\<rparr>"

datatype image_arg = PrintImageArg PrintImage | OtherArg

text \<open>
  \<^verbatim>\<open>
  async image(image, density = 'd24') {
    if (!(image instanceof PrintImage)) throw new TypeError('Only escpos.getImage supported');
    const n = ~['D8', 'S8'].indexOf(utils.upperCase(density)) ? 1 : 3;
    const header = _.BITMAP_FORMAT[`BITMAP_${utils.upperCase(density)}`];
    const bitmap = image.toBitmap(n * 8);
    this.lineSpace(0); // set line spacing to 0
    bitmap.data.forEach((line) => {
      this.buffer.write(header);
      this.buffer.writeUInt16LE(line.length / n);
      this.buffer.write(line);
      this.buffer.write(_.EOL);
    });
    await new Promise((resolve) => { setTimeout(() => { resolve() }, 200); });
    return this.lineSpace();
  }
  \<close>
  The delay is not modelled: the model is the session once the returned promise has
  settled.
\<close>

definition bytesPerColumn :: "host \<Rightarrow> jsstring \<Rightarrow> nat" where
  "bytesPerColumn h density = (if upperCase h density \<in> set [js ''D8'', js ''S8''] then 1 else 3)"

definition writeLine :: "commands \<Rightarrow> jsstring \<Rightarrow> nat \<Rightarrow> jsarray \<Rightarrow> Printer \<Rightarrow> outcome" where
  "writeLine c header n line p =
     (let p1 = bufferWrite header p
      in andThen (writeUInt16LE (int (length line div n)) p1)
           (\<lambda>p2. let p3 = writeArray line p2 in Normal (bufferWrite (EOL c) p3)))"

definition image_cmd :: "host \<Rightarrow> commands \<Rightarrow> Printer \<Rightarrow> image_arg \<Rightarrow> jsstring option \<Rightarrow> outcome" where
  "image_cmd h c p image' density0 =
     (case image' of
        OtherArg \<Rightarrow> Raise (TypeError ''Only escpos.getImage supported'') p
      | PrintImageArg img \<Rightarrow>
          (let density = (case density0 of None \<Rightarrow> js ''d24'' | Some d \<Rightarrow> d);
               n = bytesPerColumn h density;
               header = BITMAP_FORMAT c (upperCase h density);
               bitmap = toBitmap img (n * 8);
               p1 = lineSpace c (Some 0) p;
               p2 = fold (\<lambda>line r. andThen r (writeLine c header n line)) (bitmap_data bitmap) p1
           in andThen p2 (lineSpace c None)))"

text \<open>
  \<^verbatim>\<open>
  raster(image, mode = 'NORMAL') {
    if (!(image instanceof PrintImage)) throw new TypeError('Only escpos.getImage supported');
    mode = utils.upperCase(mode);
    if (mode === 'DHDW' || mode === 'DWH' || mode === 'DHW') mode = 'DWDH';
    const raster = image.toRaster();
    const header = _.GSV0_FORMAT[`GSV0_${mode}`];
    this.buffer.write(header);
    this.buffer.writeUInt16LE(raster.width);
    this.buffer.writeUInt16LE(raster.height);
    this.buffer.write(raster.data);
    return this;
  }
  \<close>
\<close>

definition raster :: "host \<Rightarrow> commands \<Rightarrow> Printer \<Rightarrow> image_arg \<Rightarrow> jsstring option \<Rightarrow> outcome" where
  "raster h c p image' mode0 =
     (case image' of
        OtherArg \<Rightarrow> Raise (TypeError ''Only escpos.getImage supported'') p
      | PrintImageArg img \<Rightarrow>
          (let mode = upperCase h (case mode0 of None \<Rightarrow> js ''NORMAL'' | Some m \<Rightarrow> m);
               mode = (if mode = js ''DHDW'' \<or> mode = js ''DWH'' \<or> mode = js ''DHW''
                       then js ''DWDH'' else mode);
               r = toRaster img;
               header = GSV0_FORMAT c mode;
               p1 = bufferWrite header p
           in andThen (writeUInt16LE (int (raster_width r)) p1)
             (\<lambda>p2. andThen (writeUInt16LE (int (raster_height r)) p2)
             (\<lambda>p3. Normal (writeArray (raster_data r) p3)))))"

section \<open>Table layout\<close>

text \<open>
  \<^verbatim>\<open>
  _getStyle(boldOrString, italic, underline) {
    if (typeof boldOrString === 'string') {
      switch (utils.upperCase(boldOrString)) {
        case 'B': return this._getStyle(true, false, 0);
        case 'I': return this._getStyle(false, true, 0);
        case 'U': return this._getStyle(false, false, 1);
        case 'U2': return this._getStyle(false, false, 2);
        case 'BI': return this._getStyle(true, true, 0);
        case 'BIU': return this._getStyle(true, true, 1);
        case 'BIU2': return this._getStyle(true, true, 2);
        case 'BU': return this._getStyle(true, false, 1);
        case 'BU2': return this._getStyle(true, false, 2);
        case 'IU': return this._getStyle(false, true, 1);
        case 'IU2': return this._getStyle(false, true, 2);
        case 'NORMAL':
        default: return this._getStyle(false, false, 0);
      }
    } else {
      let styled = `${boldOrString ? TXT_BOLD_ON : TXT_BOLD_OFF}${italic ? TXT_ITALIC_ON : TXT_ITALIC_OFF}`;
      if (underline === 0 || underline === false) styled += _.TEXT_FORMAT.TXT_UNDERL_OFF;
      else if (underline === 1 || underline === true) styled += _.TEXT_FORMAT.TXT_UNDERL_ON;
      else if (underline === 2) styled += _.TEXT_FORMAT.TXT_UNDERL2_ON;
      return styled;
    }
  }
  \<close>
\<close>

definition getStyleFlags :: "commands \<Rightarrow> bool \<Rightarrow> bool \<Rightarrow> nat \<Rightarrow> jsstring" where
  "getStyleFlags c bold italic underline =
     (let tf = TEXT_FORMAT c;
          styled = (if bold then TXT_BOLD_ON tf else TXT_BOLD_OFF tf)
                   @ (if italic then TXT_ITALIC_ON tf else TXT_ITALIC_OFF tf)
      in if underline = 0 then styled @ TXT_UNDERL_OFF tf
         else if underline = 1 then styled @ TXT_UNDERL_ON tf
         else if underline = 2 then styled @ TXT_UNDERL2_ON tf
         else styled)"

definition getStyle :: "host \<Rightarrow> commands \<Rightarrow> jsstring \<Rightarrow> jsstring" where
  "getStyle h c boldOrString =
     (let u = upperCase h boldOrString in
      if u = js ''B'' then getStyleFlags c True False 0
      else if u = js ''I'' then getStyleFlags c False True 0
      else if u = js ''U'' then getStyleFlags c False False 1
      else if u = js ''U2'' then getStyleFlags c False False 2
      else if u = js ''BI'' then getStyleFlags c True True 0
      else if u = js ''BIU'' then getStyleFlags c True True 1
      else if u = js ''BIU2'' then getStyleFlags c True True 2
      else if u = js ''BU'' then getStyleFlags c True False 1
      else if u = js ''BU2'' then getStyleFlags c True False 2
      else if u = js ''IU'' then getStyleFlags c False True 1
      else if u = js ''IU2'' then getStyleFlags c False True 2
      else getStyleFlags c False False 0)"

text \<open>
  A cell is an object that the caller and \<open>tableCustom\<close> share: the row is a list of
  references into a store of cell objects, and \<open>obj.text = ...\<close> updates the store.
  \<open>cell_width\<close> is present when \<open>"width" in obj\<close>; \<open>align\<close> and \<open>style\<close> are strings when
  present, \<open>width\<close> and \<open>cols\<close> numbers.
\<close>

type_synonym addr = nat

record cell =
  cell_text :: jsstring
  cell_align :: "jsstring option"
  cell_style :: "jsstring option"
  cell_width :: "rat option"
  cell_cols :: "rat option"

text \<open>\<open>options = { size: [width, height], encoding }\<close>.\<close>

record table_options =
  tbl_width :: nat
  tbl_height :: nat
  tbl_encoding :: "jsstring option"

text \<open>\<open>for (let s = 0; s < spaces; s++) lineStr += ' '\<close>\<close>

definition spacesStr :: "rat \<Rightarrow> jsstring" where
  "spacesStr spaces = replicate (nat \<lceil>spaces\<rceil>) 0x20"

text \<open>
  \<^verbatim>\<open>
        if (obj.text !== '') {
          if (obj.style) lineStr += `${this._getStyle(obj.style)}${obj.text}${this._getStyle("NORMAL")}`;
          else lineStr += obj.text
        }
  \<close>
\<close>

definition styledText :: "host \<Rightarrow> commands \<Rightarrow> cell \<Rightarrow> jsstring" where
  "styledText h c obj =
     (if cell_text obj \<noteq> [] then
        (case cell_style obj of
           None \<Rightarrow> cell_text obj
         | Some st \<Rightarrow>
             if st \<noteq> [] then getStyle h c st @ cell_text obj @ getStyle h c (js ''NORMAL'')
             else cell_text obj)
      else [])"

text \<open>The variables of the loop over the cells (source lines 170 to 241).\<close>

record row_state =
  cellWidth :: rat
  leftoverSpace :: rat
  lineStr :: jsstring
  secondLineEnabled :: bool
  secondLine :: "addr list"
  store :: "addr \<Rightarrow> cell"

text \<open>
  \<^verbatim>\<open>
      if ("width" in obj) { cellWidth = baseWidth * obj.width }
      else if (obj.cols) { cellWidth = obj.cols / width; leftoverSpace = 0; }
  \<close>
\<close>

definition cellWidthOf :: "rat \<Rightarrow> nat \<Rightarrow> cell \<Rightarrow> rat \<Rightarrow> rat" where
  "cellWidthOf baseWidth width' obj cw =
     (case cell_width obj of
        Some w \<Rightarrow> baseWidth * w
      | None \<Rightarrow> (case cell_cols obj of
                   Some k \<Rightarrow> if k \<noteq> 0 then k / of_nat width' else cw
                 | None \<Rightarrow> cw))"

definition leftoverOf :: "cell \<Rightarrow> rat \<Rightarrow> rat" where
  "leftoverOf obj lo =
     (case cell_width obj of
        Some w \<Rightarrow> lo
      | None \<Rightarrow> (case cell_cols obj of
                   Some k \<Rightarrow> if k \<noteq> 0 then 0 else lo
                 | None \<Rightarrow> lo))"

text \<open>
  The three alignment branches (source lines 195 to 231): the text appended to the
  line, and the leftover space afterwards. \<open>textLen\<close> is the display width of the cell's
  text before truncation.
\<close>

definition renderCell ::
  "host \<Rightarrow> commands \<Rightarrow> jsstring \<Rightarrow> rat \<Rightarrow> nat \<Rightarrow> rat \<Rightarrow> cell \<Rightarrow> jsstring \<times> rat" where
  "renderCell h c align cw textLen lo obj =
     (if align = js ''CENTER'' then
        (let spaces = (cw - of_nat textLen) / 2
         in (spacesStr spaces @ styledText h c obj @ spacesStr (spaces - 1), lo))
      else if align = js ''RIGHT'' then
        (let spaces = cw - of_nat textLen;
             spaces1 = (if lo > 0 then spaces + lo else spaces);
             lo1 = (if lo > 0 then 0 else lo)
         in (spacesStr spaces1 @ styledText h c obj, lo1))
      else
        (let spaces = of_int \<lfloor>cw - of_nat textLen\<rfloor>;
             spaces1 = (if lo > 0 then spaces + lo else spaces);
             lo1 = (if lo > 0 then 0 else lo)
         in (styledText h c obj @ spacesStr spaces1, lo1)))"

definition tableCell :: "host \<Rightarrow> commands \<Rightarrow> rat \<Rightarrow> nat \<Rightarrow> addr \<Rightarrow> row_state \<Rightarrow> row_state" where
  "tableCell h c baseWidth width' a s =
     (let obj = store s a;
          align = upperCase h (strOr (cell_align obj) (js ''left''));
          textLen = textLength (cell_text obj);
          cw = cellWidthOf baseWidth width' obj (cellWidth s);
          lo = leftoverOf obj (leftoverSpace s);
          originalText = (if cw < of_nat textLen then Some (cell_text obj) else None);
          obj1 = (if cw < of_nat textLen
                  then obj\<lparr>cell_text := textSubstring (cell_text obj) 0 (Some cw)\<rparr> else obj);
          rendered = renderCell h c align cw textLen lo obj1;
          obj2 = (case originalText of
                    Some t \<Rightarrow> obj1\<lparr>cell_text := textSubstring t cw None\<rparr>
                  | None \<Rightarrow> obj1\<lparr>cell_text := []\<rparr>)
      in \<lparr>cellWidth = cw, leftoverSpace = snd rendered, lineStr = lineStr s @ fst rendered,
          secondLineEnabled = (secondLineEnabled s \<or> originalText \<noteq> None),
          secondLine = secondLine s @ [a], store = (store s)(a := obj2)\<rparr>)"

text \<open>
  One activation of \<open>tableCustom\<close> up to its last statement: the row is laid out, one
  line is written, and the continuation row and its flag are returned. The size
  multipliers are at least 1 and the row is not empty when its widths are used.
\<close>

definition tableRow ::
  "host \<Rightarrow> commands \<Rightarrow> table_options \<Rightarrow> addr list \<Rightarrow> Printer \<times> (addr \<Rightarrow> cell)
     \<Rightarrow> (Printer \<times> (addr \<Rightarrow> cell)) \<times> addr list \<times> bool" where
  "tableRow h c options data' ps =
     (let width' = tbl_width options;
          height' = tbl_height options;
          baseWidth = of_int \<lfloor>(of_nat (width (fst ps)) :: rat) / of_nat width'\<rfloor>;
          cellWidth0 = of_int \<lfloor>baseWidth / of_nat (length data')\<rfloor>;
          leftoverSpace0 = baseWidth - cellWidth0 * of_nat (length data');
          s = fold (tableCell h c baseWidth width') data'
                \<lparr>cellWidth = cellWidth0, leftoverSpace = leftoverSpace0, lineStr = [],
                 secondLineEnabled = False, secondLine = [], store = snd ps\<rparr>;
          lineStr1 = (if width' > 1 \<or> height' > 1
                      then TXT_CUSTOM_SIZE (TEXT_FORMAT c) width' height' @ lineStr s
                           @ TXT_NORMAL (TEXT_FORMAT c)
                      else lineStr s);
          p1 = writeBuffer (iconv_encode h (lineStr1 @ EOL c)
                              (strOr (tbl_encoding options) (encoding (fst ps)))) (fst ps)
      in ((p1, store s), secondLine s, secondLineEnabled s))"

text \<open>
  \<^verbatim>\<open>
    if (secondLineEnabled) {
      // Writes second line if has
      return this.tableCustom(secondLine, options)
    } else {
      return this
    }
  \<close>
  The recursion need not end; \<open>None\<close> is a call that does not return.
\<close>

partial_function (option) tableCustom ::
  "host \<Rightarrow> commands \<Rightarrow> table_options \<Rightarrow> addr list \<Rightarrow> Printer \<times> (addr \<Rightarrow> cell)
     \<Rightarrow> (Printer \<times> (addr \<Rightarrow> cell)) option" where
  "tableCustom h c options data' ps =
     (case tableRow h c options data' ps of
        (ps1, secondLine', enabled) \<Rightarrow>
          if enabled then tableCustom h c options secondLine' ps1 else Some ps1)"

section \<open>Reading the projections back\<close>

text \<open>
  The ink that the loops of \<open>toBitmap\<close> and \<open>toRaster\<close> test for block (or row) \<open>y\<close>,
  column (or byte column) \<open>x\<close> and bit \<open>b\<close>.
\<close>

definition inkBitmap :: "PrintImage \<Rightarrow> nat \<Rightarrow> nat \<Rightarrow> nat \<Rightarrow> nat \<Rightarrow> bool" where
  "inkBitmap img density y x b \<longleftrightarrow>
     y * density + b < size_height img \<and> dataAt img ((y * density + b) * size_width img + x)"

definition inkRaster :: "PrintImage \<Rightarrow> nat \<Rightarrow> nat \<Rightarrow> nat \<Rightarrow> bool" where
  "inkRaster img y x b \<longleftrightarrow>
     x * 8 + b < size_width img \<and> dataAt img (y * size_width img + (x * 8 + b))"

text \<open>
  The mask rebuilt from a projection: element \<open>i\<close> is the bit decoded for row
  \<open>i div w\<close> and column \<open>i mod w\<close>.
\<close>

definition maskFromBitmap :: "bitmap \<Rightarrow> nat \<Rightarrow> nat \<Rightarrow> bool list" where
  "maskFromBitmap bm w h =
     map (\<lambda>i. decodeBitmap bm ((i div w) div bitmap_density bm) (i mod w) ((i div w) mod bitmap_density bm))
       [0..<w * h]"

definition maskFromRaster :: "raster_image \<Rightarrow> nat \<Rightarrow> bool list" where
  "maskFromRaster r w =
     map (\<lambda>i. decodeRaster r (i div w) ((i mod w) div 8) ((i mod w) mod 8)) [0..<w * raster_height r]"

text \<open>
  Both inner loops are one accumulation: bit \<open>b\<close> goes to the element \<open>base + b div 8\<close>,
  which is set to 0 when it is first touched. \<open>bitsVal f lo hi\<close> is the value that
  the bits \<open>lo..<hi\<close> add up to, \<open>accBytes f m\<close> the elements after the first \<open>m\<close> bits.
\<close>

definition bitsVal :: "(nat \<Rightarrow> bool) \<Rightarrow> nat \<Rightarrow> nat \<Rightarrow> nat" where
  "bitsVal f lo hi = (\<Sum>b = lo..<hi. if f b then 128 div 2 ^ (b mod 8) else 0)"

definition accStep :: "(nat \<Rightarrow> bool) \<Rightarrow> nat \<Rightarrow> nat \<Rightarrow> jsarray \<Rightarrow> jsarray" where
  "accStep f base b xs =
     (let i = base + b div 8; xs1 = arrInit xs i
      in if f b then arrAdd xs1 i (128 div 2 ^ (b mod 8)) else xs1)"

definition accBytes :: "(nat \<Rightarrow> bool) \<Rightarrow> nat \<Rightarrow> jsarray" where
  "accBytes f m = map (\<lambda>j. Some (bitsVal f (8 * j) (min (8 * j + 8) m))) [0..<(m + 7) div 8]"

text \<open>A 2 by 9 ink mask for concrete runs.\<close>

definition exampleImage :: PrintImage where
  "exampleImage = \<lparr>size_width = 2, size_height = 9,
     data = [True, False, False, True, True, True, False, False, False,
             False, False, False, False, False, False, False, True, True]\<rparr>"

section \<open>Parameters for concrete runs\<close>

text \<open>
  An instance of the host functions and of the command table, with the usual ESC/POS
  encodings, on which the model is run at concrete inputs. Upper-casing is that of the
  ASCII letters, the codec is UTF-8. \<open>optionsArg v\<close> is the rest of a call
  \<open>barcode(code, type, v)\<close>; with \<open>undefined\<close> for \<open>v\<close> it is also that of \<open>barcode(code, type)\<close>,
  where \<open>optionsOrLegacy[0]\<close> is \<open>undefined\<close> as well.
\<close>

definition asciiUpper :: "jschar \<Rightarrow> jschar" where
  "asciiUpper ch = (if 0x61 \<le> ch \<and> ch \<le> 0x7a then ch - 0x20 else ch)"

definition exampleHost :: host where
  "exampleHost = \<lparr>toUpperCase = map asciiUpper, iconv_encode = (\<lambda>str enc. utf8 str),
                   utf8_decode = map ucast\<rparr>"

definition exampleCommands :: commands where
  "exampleCommands =
     \<lparr>EOL = [0x0a], LS_DEFAULT = [0x1b, 0x32], LS_SET = [0x1b, 0x33],
      TEXT_FORMAT =
        \<lparr>TXT_NORMAL = [0x1b, 0x21, 0x00],
         TXT_BOLD_ON = [0x1b, 0x45, 0x01], TXT_BOLD_OFF = [0x1b, 0x45, 0x00],
         TXT_ITALIC_ON = [0x1b, 0x34], TXT_ITALIC_OFF = [0x1b, 0x35],
         TXT_UNDERL_OFF = [0x1b, 0x2d, 0x00], TXT_UNDERL_ON = [0x1b, 0x2d, 0x01],
         TXT_UNDERL2_ON = [0x1b, 0x2d, 0x02],
         TXT_CUSTOM_SIZE = (\<lambda>w h. [0x1d, 0x21, of_nat ((w - 1) * 16 + (h - 1))])\<rparr>,
      BARCODE_FORMAT =
        \<lparr>BARCODE_WIDTH = (\<lambda>v. None), BARCODE_WIDTH_DEFAULT = [0x1d, 0x77, 0x03],
         BARCODE_HEIGHT = (\<lambda>n. [0x1d, 0x68, of_int n]), BARCODE_HEIGHT_DEFAULT = [0x1d, 0x68, 0x64],
         BARCODE_FONT = (\<lambda>k. [0x1d, 0x66, if k = js ''B'' then 0x01 else 0x00]),
         BARCODE_TXT = (\<lambda>k. [0x1d, 0x48, if k = js ''BLW'' then 0x02 else 0x00]),
         BARCODE_TYPE = (\<lambda>k. [0x1d, 0x6b, if k = js ''EAN13'' then 0x02 else if k = js ''EAN8'' then 0x03
                                              else if k = js ''CODE128'' then 0x49 else 0x04])\<rparr>,
      CODE2D_FORMAT =
        \<lparr>TYPE_QR = [0x1b, 0x5a, 0x00], CODE2D = [0x1d, 0x6b], QR_LEVEL = (\<lambda>k. js ''L'')\<rparr>,
      QSPRINTER =
        \<lparr>QS_BARCODE_MODE_ON = [0x1d, 0x45, 0x43, 0x01], QS_BARCODE_MODE_OFF = [0x1d, 0x45, 0x43, 0x00],
         QS_BARCODE_HEIGHT_DEFAULT = [0x1d, 0x68, 0xa2],
         PIXEL_SIZE_CMD = [0x1b, 0x23, 0x23] @ js ''QPIX'', PIXEL_SIZE_MIN = 1, PIXEL_SIZE_MAX = 24,
         PIXEL_SIZE_DEFAULT = 12,
         VERSION_CMD = [0x1d, 0x28, 0x6b, 0x03, 0x00, 0x31, 0x43], VERSION_MIN = 1, VERSION_MAX = 16,
         VERSION_DEFAULT = 3,
         LEVEL_CMD = [0x1d, 0x28, 0x6b, 0x03, 0x00, 0x31, 0x45], LEVEL_OPTIONS = (\<lambda>k. js ''48''),
         SAVEBUF_CMD_P1 = [0x1d, 0x28, 0x6b], SAVEBUF_CMD_P2 = [0x31, 0x50, 0x30],
         PRINTBUF_CMD_P1 = [0x1d, 0x28, 0x6b], PRINTBUF_CMD_P2 = [0x31, 0x51, 0x30],
         LEN_OFFSET = 3\<rparr>,
      BITMAP_FORMAT = (\<lambda>k. [0x1b, 0x2a, if k = js ''D8'' then 0x01 else if k = js ''S8'' then 0x00
                                        else if k = js ''S24'' then 0x20 else 0x21]),
      GSV0_FORMAT = (\<lambda>k. [0x1d, 0x76, 0x30, if k = js ''DWDH'' then 0x03 else 0x00])\<rparr>"

definition examplePrinter :: Printer where
  "examplePrinter = \<lparr>buffer = [], encoding = js ''GB18030'', width = 48, model = None\<rparr>"

definition optionsArg :: "jsval \<Rightarrow> barcode_rest" where
  "optionsArg v = \<lparr>rest0 = v, rest1 = None, rest2 = JUndefined, rest3 = JUndefined\<rparr>"

section \<open>The image command's output\<close>

text \<open>
  The two bytes that \<open>writeUInt16LE\<close> stores for a count, the bytes written for one
  bitmap line (header, count, the line, a terminator), and the whole output of an
  image command as a function of the count taken for a line and of the terminator.
\<close>

definition uint16LE :: "nat \<Rightarrow> byte list" where
  "uint16LE k = [of_nat k, of_nat (k div 256)]"

definition lineRecord :: "jsstring \<Rightarrow> nat \<Rightarrow> jsstring \<Rightarrow> jsarray \<Rightarrow> byte list" where
  "lineRecord header k terminator line = utf8 header @ uint16LE k @ map elemByte line @ utf8 terminator"

definition imageStream ::
  "commands \<Rightarrow> jsstring \<Rightarrow> (jsarray \<Rightarrow> nat) \<Rightarrow> jsstring \<Rightarrow> jsarray list \<Rightarrow> byte list" where
  "imageStream c header count terminator lines =
     utf8 (LS_SET c) @ [0]
     @ concat (map (\<lambda>line. lineRecord header (count line) terminator line) lines)
     @ utf8 (LS_DEFAULT c)"

text \<open>An image of one marked pixel.\<close>

definition dotImage :: PrintImage where
  "dotImage = \<lparr>size_width = 1, size_height = 1, data = [True]\<rparr>"

section \<open>Cells for concrete runs\<close>

text \<open>
  \<open>overflows\<close> is the test \<open>cellWidth < textLength\<close> of the loop for the cell at \<open>a\<close>.
  \<open>wideCell\<close> is \<open>{ text: c, cols: 1 }\<close> for the character \<open>c\<close> U+4E2D, one character two columns wide in a cell
  one column wide; \<open>plainCell t\<close> is \<open>{ text: t }\<close>; \<open>unitSize\<close> is the default
  \<open>size: [1, 1]\<close> with no encoding.
\<close>

definition overflows :: "rat \<Rightarrow> nat \<Rightarrow> addr \<Rightarrow> row_state \<Rightarrow> bool" where
  "overflows baseWidth width' a s \<longleftrightarrow>
     cellWidthOf baseWidth width' (store s a) (cellWidth s) < of_nat (textLength (cell_text (store s a)))"

definition wideCell :: cell where
  "wideCell = \<lparr>cell_text = [0x4E2D], cell_align = None, cell_style = None,
                 cell_width = None, cell_cols = Some 1\<rparr>"

definition unitSize :: table_options where
  "unitSize = \<lparr>tbl_width = 1, tbl_height = 1, tbl_encoding = None\<rparr>"

definition plainCell :: "jsstring \<Rightarrow> cell" where
  "plainCell t = \<lparr>cell_text = t, cell_align = None, cell_style = None, cell_width = None,
                   cell_cols = None\<rparr>"

section \<open>Checksum digit\<close>

lemma parityStep_digit:
  assumes "isDigit (r ! k)"
  shows "parityStep r k (Some a) = Some (a + digitValue (r ! k) * (if odd (k + 1) then 3 else 1))"
proof -
  have "(3::nat) ^ ((k + 1) mod 2) = (if odd (k + 1) then 3 else 1)"
    by (cases "even k") (simp_all add: mod_Suc even_iff_mod_2_eq_zero odd_iff_mod_2_eq_one)
  with assms show ?thesis
    by (simp add: parityStep_def nanAdd_def nanMul_def parseInt10_def isDigit_def digitValue_def)
qed

lemma parity_fold:
  assumes "\<forall>c \<in> set r. isDigit c" and "k \<le> length r"
  shows "fold (parityStep r) [0..<k] (Some 0) =
         Some (\<Sum>i = 1..k. digitValue (r ! (i - 1)) * (if odd i then 3 else 1))"
  using assms(2)
proof (induction k)
  case 0
  show ?case by simp
next
  case (Suc k)
  then have k: "k < length r" by simp
  with assms(1) have d: "isDigit (r ! k)" by simp
  from Suc have ih: "fold (parityStep r) [0..<k] (Some 0) =
      Some (\<Sum>i = 1..k. digitValue (r ! (i - 1)) * (if odd i then 3 else 1))"
    by simp
  show ?case
    by (simp add: ih parityStep_digit [OF d] del: One_nat_def)
qed

lemma unat_of_nat16: "n < 65536 \<Longrightarrow> unat (of_nat n :: jschar) = n"
  by (simp add: unat_of_nat)

lemma toStringRadix_digit: "n < 10 \<Longrightarrow> toStringRadix 10 n = [digitChar n]"
  by (simp add: toStringRadix.simps)

lemma getParityBit_digits:
  assumes "\<forall>c \<in> set str. isDigit c"
  shows "getParityBit str = [of_nat (48 + checksumSpec str)] \<and> checksumSpec str \<le> 9
         \<and> isDigit (of_nat (48 + checksumSpec str))"
proof -
  have r: "\<forall>c \<in> set (rev str). isDigit c" using assms by simp
  have f: "fold (parityStep (rev str)) [0..<length str] (Some 0) = Some (weightedSum str)"
    using parity_fold [OF r, of "length str"] by (simp add: weightedSum_def)
  have b: "checksumSpec str < 10" by (simp add: checksumSpec_def)
  have g: "getParityBit str = toStringRadix 10 (checksumSpec str)"
    by (simp add: getParityBit_def Let_def f checksumSpec_def)
  have w: "unat (of_nat (48 + checksumSpec str) :: jschar) = 48 + checksumSpec str"
    using b by (intro unat_of_nat16) simp
  have "isDigit (of_nat (48 + checksumSpec str))"
    using b w by (simp add: isDigit_def word_le_nat_alt)
  with b g show ?thesis
    by (simp add: toStringRadix_digit digitChar_def)
qed

text \<open>
  C3. For every non-empty string of decimal digits, \<open>getParityBit\<close> returns one
  decimal digit, the digit of \<open>(10 - (S mod 10)) mod 10\<close>, which lies in \<open>[0,9]\<close>; \<open>S\<close>
  is the sum over the reversed digit string of each digit times 3 at an odd 1-indexed
  position and times 1 at an even one.
\<close>

theorem getParityBit_checksum:
  assumes "str \<noteq> []" and "\<forall>c \<in> set str. isDigit c"
  shows "getParityBit str = [of_nat (48 + checksumSpec str)] \<and> checksumSpec str \<le> 9
         \<and> isDigit (of_nat (48 + checksumSpec str))"
  using assms(2) by (rule getParityBit_digits)

theorem getParityBit_checksum_witness:
  "js ''400638133393'' \<noteq> [] \<and> list_all isDigit (js ''400638133393'')
   \<and> getParityBit (js ''400638133393'') = js ''1''"
proof -
  have a: "js ''400638133393'' \<noteq> []" by (simp add: js_def)
  have d: "\<forall>c \<in> set (js ''400638133393''). isDigit c" by (simp add: js_def isDigit_def)
  have c: "checksumSpec (js ''400638133393'') = 1"
    by (simp add: checksumSpec_def weightedSum_def js_def digitValue_def
        atLeastAtMost_upt upt_rec [of _ "numeral _"] upt_rec [of _ "Suc _"])
  from getParityBit_checksum [OF a d] a d c show ?thesis by (simp add: js_def list_all_iff)
qed

section \<open>Sequencing and the errors of the buffer\<close>

lemma andThen_simps:
  "andThen (Normal p) f = f p"
  "andThen (Raise e p) f = Raise e p"
  by (simp_all add: andThen_def)

lemma andThen_Normal:
  "andThen r f = Normal p' \<longleftrightarrow> (\<exists>q. r = Normal q \<and> f q = Normal p')"
  by (cases r) (simp_all add: andThen_def)

lemma andThen_Raise:
  "andThen r f = Raise e p' \<longleftrightarrow> r = Raise e p' \<or> (\<exists>q. r = Normal q \<and> f q = Raise e p')"
  by (cases r) (simp_all add: andThen_def)

lemma writeUInt8_Raise:
  "writeUInt8 n p = Raise e p' \<Longrightarrow> e = RangeError ''value is out of range''"
  by (simp add: writeUInt8_def split: if_splits)

lemma writeUInt16LE_Raise:
  "writeUInt16LE n p = Raise e p' \<Longrightarrow> e = RangeError ''value is out of range''"
  by (simp add: writeUInt16LE_def split: if_splits)

lemma writeUpper_Raise:
  "writeUpper h table v p = Raise e p' \<Longrightarrow> e = TypeError ''string.toUpperCase is not a function''"
  by (simp add: writeUpper_def upperCaseVal_def split: jsval.splits)

lemma writeUpper_JStr:
  "writeUpper h table (JStr s) p = Normal (bufferWrite (table (upperCase h s)) p)"
  by (simp add: writeUpper_def upperCaseVal_def)

lemma lineSpace_Raise:
  "lineSpace c n p = Raise e p' \<Longrightarrow> e = RangeError ''value is out of range''"
  by (auto simp add: lineSpace_def split: option.splits dest: writeUInt8_Raise)

lemma utf8_replicate_ascii: "utf8 (replicate n (0x61 :: jschar)) = replicate n (0x61 :: byte)"
proof (induction n)
  case 0
  show ?case by simp
next
  case (Suc n)
  show ?case
  proof (cases n)
    case 0
    then show ?thesis by (simp add: utf8_unit_def)
  next
    case (Suc m)
    with Suc.IH show ?thesis by (simp add: utf8_unit_def isLead_def)
  qed
qed

section \<open>Two-dimensional code: the length check\<close>

lemma qrcode_qsprinter_eq:
  "qrcode h c (p\<lparr>model := Some (js ''qsprinter'')\<rparr>) content version level size' =
     qrcodeQsprinter h c (p\<lparr>model := Some (js ''qsprinter'')\<rparr>) (utf8 content) version level size'"
  by (auto simp add: qrcode_def isQsprinter_def Let_def)

lemma qrcodeQsprinter_Raise:
  "qrcodeQsprinter h c p dataRaw version level size' = Raise e p' \<Longrightarrow>
   e = RangeError ''value is out of range'' \<or> e = TypeError ''string.toUpperCase is not a function''"
  by (auto simp add: qrcodeQsprinter_def Let_def andThen_Raise
      dest: writeUInt8_Raise writeUInt16LE_Raise writeUpper_Raise)

lemma qrcodeQsprinter_long_content:
  "qrcodeQsprinter exampleHost exampleCommands (examplePrinter\<lparr>model := Some (js ''qsprinter'')\<rparr>)
      (replicate 2711 0x61) None JUndefined None
   = Normal (examplePrinter\<lparr>model := Some (js ''qsprinter''), buffer :=
       [0x1b, 0x23, 0x23, 0x51, 0x50, 0x49, 0x58, 0x0c,
        0x1d, 0x28, 0x6b, 0x03, 0x00, 0x31, 0x43, 0x03,
        0x1d, 0x28, 0x6b, 0x03, 0x00, 0x31, 0x45, 0x34, 0x38,
        0x1d, 0x28, 0x6b, 0x9a, 0x0a, 0x31, 0x50, 0x30]
       @ replicate 2711 0x61
       @ [0x1d, 0x28, 0x6b, 0x9a, 0x0a, 0x31, 0x51, 0x30]\<rparr>)"
  by (simp add: qrcodeQsprinter_def Let_def exampleCommands_def exampleHost_def examplePrinter_def
      andThen_simps writeUInt8_def writeUInt16LE_def writeUpper_JStr clampParam_def jsOr_def truthy_def
      bufferWrite_def writeBuffer_def js_def upperCase_def utf8_unit_def isLead_def isTrail_def)

text \<open>
  C1. On a session whose model is \<open>'qsprinter'\<close>, the length check of \<open>qrcode\<close> throws for
  no content: the guard \<open>dataRaw.length < 1 && dataRaw.length > 2710\<close> never holds. For
  every content the call is the command sequence that follows the check, and it never
  raises the error \<open>'Invalid code length in byte. Must be between 1 and 2710'\<close>. With
  the empty content, and with a content of 2711 bytes (2711 times the letter \<open>a\<close>), the
  call returns and has appended the whole pixel-size, version, level, save-buffer and
  print-buffer sequence.
\<close>

theorem qrcode_qsprinter_length_check_dead:
  "qrcode h c (p\<lparr>model := Some (js ''qsprinter'')\<rparr>) content version level size'
     = qrcodeQsprinter h c (p\<lparr>model := Some (js ''qsprinter'')\<rparr>) (utf8 content) version level size'
   \<and> qrcode h c (p\<lparr>model := Some (js ''qsprinter'')\<rparr>) content version level size'
     \<noteq> Raise (Error ''Invalid code length in byte. Must be between 1 and 2710'') p'
   \<and> qrcode exampleHost exampleCommands (examplePrinter\<lparr>model := Some (js ''qsprinter'')\<rparr>)
        [] None JUndefined None
     = Normal (examplePrinter\<lparr>model := Some (js ''qsprinter''), buffer :=
         [0x1b, 0x23, 0x23, 0x51, 0x50, 0x49, 0x58, 0x0c,
          0x1d, 0x28, 0x6b, 0x03, 0x00, 0x31, 0x43, 0x03,
          0x1d, 0x28, 0x6b, 0x03, 0x00, 0x31, 0x45, 0x34, 0x38,
          0x1d, 0x28, 0x6b, 0x03, 0x00, 0x31, 0x50, 0x30,
          0x1d, 0x28, 0x6b, 0x03, 0x00, 0x31, 0x51, 0x30]\<rparr>)
   \<and> qrcode exampleHost exampleCommands (examplePrinter\<lparr>model := Some (js ''qsprinter'')\<rparr>)
        (replicate 2711 0x61) None JUndefined None
     = Normal (examplePrinter\<lparr>model := Some (js ''qsprinter''), buffer :=
         [0x1b, 0x23, 0x23, 0x51, 0x50, 0x49, 0x58, 0x0c,
          0x1d, 0x28, 0x6b, 0x03, 0x00, 0x31, 0x43, 0x03,
          0x1d, 0x28, 0x6b, 0x03, 0x00, 0x31, 0x45, 0x34, 0x38,
          0x1d, 0x28, 0x6b, 0x9a, 0x0a, 0x31, 0x50, 0x30]
         @ replicate 2711 0x61
         @ [0x1d, 0x28, 0x6b, 0x9a, 0x0a, 0x31, 0x51, 0x30]\<rparr>)"
proof -
  have 1: "qrcode h c (p\<lparr>model := Some (js ''qsprinter'')\<rparr>) content version level size'
     = qrcodeQsprinter h c (p\<lparr>model := Some (js ''qsprinter'')\<rparr>) (utf8 content) version level size'"
    by (rule qrcode_qsprinter_eq)
  have 2: "qrcode h c (p\<lparr>model := Some (js ''qsprinter'')\<rparr>) content version level size'
     \<noteq> Raise (Error ''Invalid code length in byte. Must be between 1 and 2710'') p'"
    unfolding 1 using qrcodeQsprinter_Raise by blast
  have 3: "qrcode exampleHost exampleCommands (examplePrinter\<lparr>model := Some (js ''qsprinter'')\<rparr>)
        [] None JUndefined None
     = Normal (examplePrinter\<lparr>model := Some (js ''qsprinter''), buffer :=
         [0x1b, 0x23, 0x23, 0x51, 0x50, 0x49, 0x58, 0x0c,
          0x1d, 0x28, 0x6b, 0x03, 0x00, 0x31, 0x43, 0x03,
          0x1d, 0x28, 0x6b, 0x03, 0x00, 0x31, 0x45, 0x34, 0x38,
          0x1d, 0x28, 0x6b, 0x03, 0x00, 0x31, 0x50, 0x30,
          0x1d, 0x28, 0x6b, 0x03, 0x00, 0x31, 0x51, 0x30]\<rparr>)"
    by code_simp
  have 4: "qrcode exampleHost exampleCommands (examplePrinter\<lparr>model := Some (js ''qsprinter'')\<rparr>)
        (replicate 2711 0x61) None JUndefined None
     = Normal (examplePrinter\<lparr>model := Some (js ''qsprinter''), buffer :=
         [0x1b, 0x23, 0x23, 0x51, 0x50, 0x49, 0x58, 0x0c,
          0x1d, 0x28, 0x6b, 0x03, 0x00, 0x31, 0x43, 0x03,
          0x1d, 0x28, 0x6b, 0x03, 0x00, 0x31, 0x45, 0x34, 0x38,
          0x1d, 0x28, 0x6b, 0x9a, 0x0a, 0x31, 0x50, 0x30]
         @ replicate 2711 0x61
         @ [0x1d, 0x28, 0x6b, 0x9a, 0x0a, 0x31, 0x51, 0x30]\<rparr>)"
    using qrcodeQsprinter_long_content
    by (simp only: qrcode_qsprinter_eq [of exampleHost exampleCommands examplePrinter] utf8_replicate_ascii)
  from 1 2 3 4 show ?thesis by (intro conjI)
qed

section \<open>Barcode: option resolution and length checks\<close>

lemma resolveOptions_object:
  "typeof (rest0 r) = ''object'' \<Longrightarrow>
   resolveOptions r = Inr \<lparr>opt_width = rest0 r, opt_height = rest1 r,
      opt_position = jsOr (rest2 r) (JStr (js ''blw'')), opt_font = jsOr (rest3 r) (JStr (js ''a'')),
      opt_includeParity = JBool True\<rparr>"
  by (simp add: resolveOptions_def isLegacyBarcodeOptions_def Let_def jsOr_def truthy_def)

lemma resolveOptions_other:
  "typeof (rest0 r) \<noteq> ''object'' \<Longrightarrow>
   resolveOptions r = Inl (TypeError ''cannot set property font of options'')"
  by (simp add: resolveOptions_def isLegacyBarcodeOptions_def)

lemma resolveOptions_includeParity:
  "resolveOptions r = Inr options \<Longrightarrow> opt_includeParity options = JBool True"
  by (cases "typeof (rest0 r) = ''object''")
     (auto simp add: resolveOptions_object resolveOptions_other)

lemma js_EAN_neq: "js ''EAN13'' \<noteq> js ''EAN8''" "js ''EAN8'' \<noteq> js ''EAN13''"
  by (simp_all add: js_def)

lemma barcodePreamble_Raise:
  "barcodePreamble h c options type p = Raise e p' \<Longrightarrow>
   e = TypeError ''string.toUpperCase is not a function''"
  by (auto simp add: barcodePreamble_def Let_def andThen_Raise dest: writeUpper_Raise split: if_splits)

lemma barcodePreamble_strings:
  "\<exists>p6. barcodePreamble h c
      \<lparr>opt_width = w, opt_height = ht, opt_position = JStr pos, opt_font = JStr font,
       opt_includeParity = ip\<rparr> (JStr ty) p = Normal p6"
  by (simp add: barcodePreamble_def Let_def writeUpper_JStr andThen_simps)

text \<open>
  When the third argument is an object and no further argument is given, the length
  checks are reached: with type \<open>'EAN13'\<close> the call raises the length error exactly when
  the payload's string is not 12 characters long and returns exactly when it is, and
  with type \<open>'EAN8'\<close> the same holds for 7 characters.
\<close>

lemma barcode_fixed_length_options_object:
  assumes "typeof v = ''object''"
  shows "(barcode h c p code (JStr (js ''EAN13'')) (optionsArg v)
            = Raise (Error ''EAN13 Barcode type requires code length 12'') p
          \<longleftrightarrow> length (codeToString code) \<noteq> 12)
       \<and> ((\<exists>p'. barcode h c p code (JStr (js ''EAN13'')) (optionsArg v) = Normal p')
          \<longleftrightarrow> length (codeToString code) = 12)
       \<and> (barcode h c p code (JStr (js ''EAN8'')) (optionsArg v)
            = Raise (Error ''EAN8 Barcode type requires code length 7'') p
          \<longleftrightarrow> length (codeToString code) \<noteq> 7)
       \<and> ((\<exists>p'. barcode h c p code (JStr (js ''EAN8'')) (optionsArg v) = Normal p')
          \<longleftrightarrow> length (codeToString code) = 7)"
proof -
  from assms have t: "typeof (rest0 (optionsArg v)) = ''object''"
    by (simp add: optionsArg_def)
  have r: "resolveOptions (optionsArg v) = Inr \<lparr>opt_width = v, opt_height = None,
      opt_position = JStr (js ''blw''), opt_font = JStr (js ''a''), opt_includeParity = JBool True\<rparr>"
    by (simp add: resolveOptions_object [OF t]) (simp add: optionsArg_def jsOr_def truthy_def)
  have ne: "\<And>ty e. barcodePreamble h c \<lparr>opt_width = v, opt_height = None,
      opt_position = JStr (js ''blw''), opt_font = JStr (js ''a''), opt_includeParity = JBool True\<rparr>
      (JStr ty) p \<noteq> Raise (Error e) p"
    using barcodePreamble_Raise by blast
  show ?thesis
    using barcodePreamble_strings [of h c v None "js ''blw''" "js ''a''" "JBool True" "js ''EAN13''" p]
      barcodePreamble_strings [of h c v None "js ''blw''" "js ''a''" "JBool True" "js ''EAN8''" p]
      ne [of "js ''EAN13''"] ne [of "js ''EAN8''"]
    by (auto simp add: barcode_def r Let_def js_EAN_neq typeof_def andThen_Normal andThen_Raise)
qed

text \<open>
  C2. A call of \<open>barcode\<close> whose third argument is not an object never reaches the
  length checks: whatever the payload and the type, it throws the TypeError of the
  option resolution, with the session as it was. This is so for a call with no third
  argument and for one with a numeric width. The call \<open>barcode('123456789012', 'EAN13')\<close>, of
  12 digits, does not return; the call \<open>barcode('12345678901', 'EAN13')\<close>, of 11 digits,
  raises that TypeError and not the length error; and so does the call with the
  legacy arguments \<open>barcode('1234567', 'EAN8', 2, 100, 'blw', 'a')\<close>.
\<close>

theorem barcode_length_check_unreached:
  "barcode h c p code type (rest\<lparr>rest0 := JUndefined\<rparr>)
     = Raise (TypeError ''cannot set property font of options'') p
   \<and> barcode h c p code type (rest\<lparr>rest0 := JNum w\<rparr>)
     = Raise (TypeError ''cannot set property font of options'') p
   \<and> barcode h c p (CodeString (js ''123456789012'')) (JStr (js ''EAN13'')) (optionsArg JUndefined)
     = Raise (TypeError ''cannot set property font of options'') p
   \<and> barcode h c p (CodeString (js ''12345678901'')) (JStr (js ''EAN13'')) (optionsArg JUndefined)
     = Raise (TypeError ''cannot set property font of options'') p
   \<and> barcode h c p (CodeString (js ''1234567'')) (JStr (js ''EAN8''))
        \<lparr>rest0 = JNum 2, rest1 = Some 100, rest2 = JStr (js ''blw''), rest3 = JStr (js ''a'')\<rparr>
     = Raise (TypeError ''cannot set property font of options'') p"
  by (simp add: barcode_def resolveOptions_other typeof_def optionsArg_def)

section \<open>Barcode: the length prefix\<close>

lemma codeLength_below_16: "length str < 16 \<Longrightarrow> codeLength h str = []"
  by (simp add: codeLength_def toStringRadix.simps bufferToString_def)

text \<open>
  C4. The payload \<open>'12345'\<close> with type \<open>'CODE128'\<close>: \<open>codeLength\<close> is the empty string
  (the hex string \<open>'5'\<close> has no pair of digits to decode), and the bytes written after
  the symbology command are the five payload characters and NUL, with no length byte.
\<close>

theorem barcode_CODE128_short_payload:
  "codeLength exampleHost (js ''12345'') = []
   \<and> barcode exampleHost exampleCommands examplePrinter (CodeString (js ''12345''))
        (JStr (js ''CODE128'')) (optionsArg (JObj []))
      = Normal (examplePrinter\<lparr>buffer :=
          [0x1d, 0x77, 0x03, 0x1d, 0x68, 0x64, 0x1d, 0x66, 0, 0x1d, 0x48, 2, 0x1d, 0x6b, 0x49,
           0x31, 0x32, 0x33, 0x34, 0x35, 0]\<rparr>)"
  by code_simp

section \<open>Errors and the bytes written before them\<close>

lemma writeLine_Raise:
  "writeLine c header n line p = Raise e p' \<Longrightarrow> e = RangeError ''value is out of range''"
  by (auto simp add: writeLine_def Let_def andThen_Raise dest: writeUInt16LE_Raise)

lemma fold_writeLine_Raise:
  "fold (\<lambda>line r. andThen r (writeLine c header n line)) lines r0 = Raise e p' \<Longrightarrow>
   r0 = Raise e p' \<or> e = RangeError ''value is out of range''"
proof (induction lines arbitrary: r0)
  case Nil
  then show ?case by simp
next
  case (Cons line lines)
  from Cons.prems have "fold (\<lambda>line r. andThen r (writeLine c header n line)) lines
      (andThen r0 (writeLine c header n line)) = Raise e p'"
    by simp
  from Cons.IH [OF this] show ?case
    by (auto simp add: andThen_Raise dest: writeLine_Raise)
qed

lemma image_cmd_Raise:
  "image_cmd h c p (PrintImageArg img) density = Raise e p' \<Longrightarrow> e = RangeError ''value is out of range''"
  by (auto simp add: image_cmd_def Let_def andThen_Raise
      dest: lineSpace_Raise fold_writeLine_Raise)

lemma raster_Raise:
  "raster h c p (PrintImageArg img) mode = Raise e p' \<Longrightarrow> e = RangeError ''value is out of range''"
  by (auto simp add: raster_def Let_def andThen_Raise dest: writeUInt16LE_Raise)

lemma qrcode_qsprinter_huge_content:
  "qrcode exampleHost exampleCommands (examplePrinter\<lparr>model := Some (js ''qsprinter'')\<rparr>)
      (replicate 65533 0x61) None JUndefined None
   = Raise (RangeError ''value is out of range'')
       (examplePrinter\<lparr>model := Some (js ''qsprinter''), buffer :=
       [0x1b, 0x23, 0x23, 0x51, 0x50, 0x49, 0x58, 0x0c,
        0x1d, 0x28, 0x6b, 0x03, 0x00, 0x31, 0x43, 0x03,
        0x1d, 0x28, 0x6b, 0x03, 0x00, 0x31, 0x45, 0x34, 0x38,
        0x1d, 0x28, 0x6b]\<rparr>)"
  unfolding qrcode_qsprinter_eq [of exampleHost exampleCommands examplePrinter] utf8_replicate_ascii
  by (simp add: qrcodeQsprinter_def Let_def exampleCommands_def exampleHost_def examplePrinter_def
      andThen_simps writeUInt8_def writeUInt16LE_def writeUpper_JStr clampParam_def jsOr_def truthy_def
      bufferWrite_def writeBuffer_def js_def upperCase_def utf8_unit_def isLead_def isTrail_def)

text \<open>
  C5 as stated fails: a call can raise after bytes of its command were appended. On a
  session with an empty buffer, \<open>qrcode('abc', 300)\<close> throws the RangeError of
  \<open>writeUInt8\<close> with 5 bytes in the buffer; \<open>barcode('12345', 5, {})\<close>, whose type is a
  number, throws the TypeError of \<open>utils.upperCase\<close> with 12 bytes in the buffer; and on
  the model \<open>'qsprinter'\<close> a 2D-code content of 65533 bytes throws the RangeError of
  \<open>writeUInt16LE\<close> with 28 bytes in the buffer.
\<close>

theorem errors_after_bytes_counterexample:
  "qrcode exampleHost exampleCommands examplePrinter (js ''abc'') (Some 300) JUndefined None
     = Raise (RangeError ''value is out of range'')
         (examplePrinter\<lparr>buffer := [0x1b, 0x5a, 0x00, 0x1d, 0x6b]\<rparr>)
   \<and> barcode exampleHost exampleCommands examplePrinter (CodeString (js ''12345'')) (JNum 5)
        (optionsArg (JObj []))
     = Raise (TypeError ''string.toUpperCase is not a function'')
         (examplePrinter\<lparr>buffer :=
            [0x1d, 0x77, 0x03, 0x1d, 0x68, 0x64, 0x1d, 0x66, 0, 0x1d, 0x48, 2]\<rparr>)
   \<and> qrcode exampleHost exampleCommands (examplePrinter\<lparr>model := Some (js ''qsprinter'')\<rparr>)
        (replicate 65533 0x61) None JUndefined None
     = Raise (RangeError ''value is out of range'')
         (examplePrinter\<lparr>model := Some (js ''qsprinter''), buffer :=
            [0x1b, 0x23, 0x23, 0x51, 0x50, 0x49, 0x58, 0x0c,
             0x1d, 0x28, 0x6b, 0x03, 0x00, 0x31, 0x43, 0x03,
             0x1d, 0x28, 0x6b, 0x03, 0x00, 0x31, 0x45, 0x34, 0x38,
             0x1d, 0x28, 0x6b]\<rparr>)
   \<and> buffer examplePrinter = []"
proof -
  have 1: "qrcode exampleHost exampleCommands examplePrinter (js ''abc'') (Some 300) JUndefined None
     = Raise (RangeError ''value is out of range'')
         (examplePrinter\<lparr>buffer := [0x1b, 0x5a, 0x00, 0x1d, 0x6b]\<rparr>)"
    by code_simp
  have 2: "barcode exampleHost exampleCommands examplePrinter (CodeString (js ''12345'')) (JNum 5)
        (optionsArg (JObj []))
     = Raise (TypeError ''string.toUpperCase is not a function'')
         (examplePrinter\<lparr>buffer :=
            [0x1d, 0x77, 0x03, 0x1d, 0x68, 0x64, 0x1d, 0x66, 0, 0x1d, 0x48, 2]\<rparr>)"
    by code_simp
  have 3: "buffer examplePrinter = []"
    by (simp add: examplePrinter_def)
  from 1 2 qrcode_qsprinter_huge_content 3 show ?thesis by (intro conjI)
qed

text \<open>
  C5, amended. The errors that \<open>barcode\<close>, \<open>image\<close> and \<open>raster\<close> throw themselves when they
  check their arguments are raised before any byte of the command is appended: the
  TypeError of the option resolution, the missing symbology and the two length errors
  of \<open>barcode\<close>, and the TypeError of \<open>image\<close> and \<open>raster\<close> for an argument that is not a
  \<open>PrintImage\<close>. A call that raises one of them leaves the session, its output buffer
  included, as it was before the call, so that what follows cannot tell the failed
  call from no call.
\<close>

theorem validation_errors_raised_before_any_byte:
  "(barcode h c p code type rest = Raise e p'
      \<and> e \<in> {TypeError ''cannot set property font of options'',
              TypeError ''barcode type is required'',
              Error ''EAN13 Barcode type requires code length 12'',
              Error ''EAN8 Barcode type requires code length 7''}
    \<longrightarrow> p' = p)
   \<and> (image_cmd h c p img density = Raise e p' \<and> e = TypeError ''Only escpos.getImage supported''
    \<longrightarrow> p' = p \<and> img = OtherArg)
   \<and> (raster h c p img mode = Raise e p' \<and> e = TypeError ''Only escpos.getImage supported''
    \<longrightarrow> p' = p \<and> img = OtherArg)"
proof -
  have b: "barcode h c p code type rest = Raise e p'
      \<and> e \<in> {TypeError ''cannot set property font of options'',
              TypeError ''barcode type is required'',
              Error ''EAN13 Barcode type requires code length 12'',
              Error ''EAN8 Barcode type requires code length 7''}
    \<longrightarrow> p' = p"
    by (auto simp add: barcode_def Let_def resolveOptions_def andThen_Raise
        split: sum.splits if_splits dest: barcodePreamble_Raise)
  have i: "image_cmd h c p img density = Raise e p' \<and> e = TypeError ''Only escpos.getImage supported''
    \<longrightarrow> p' = p \<and> img = OtherArg"
  proof (cases img)
    case (PrintImageArg x)
    then show ?thesis using image_cmd_Raise [of h c p x density e p'] by auto
  next
    case OtherArg
    then show ?thesis by (simp add: image_cmd_def)
  qed
  have r: "raster h c p img mode = Raise e p' \<and> e = TypeError ''Only escpos.getImage supported''
    \<longrightarrow> p' = p \<and> img = OtherArg"
  proof (cases img)
    case (PrintImageArg x)
    then show ?thesis using raster_Raise [of h c p x mode e p'] by auto
  next
    case OtherArg
    then show ?thesis by (simp add: raster_def)
  qed
  from b i r show ?thesis by (intro conjI)
qed

theorem validation_errors_raised_before_any_byte_witness:
  "barcode exampleHost exampleCommands (examplePrinter\<lparr>buffer := [0x41]\<rparr>)
       (CodeString (js ''12345678901'')) JUndefined (optionsArg (JObj []))
     = Raise (TypeError ''barcode type is required'') (examplePrinter\<lparr>buffer := [0x41]\<rparr>)
   \<and> barcode exampleHost exampleCommands (examplePrinter\<lparr>buffer := [0x41]\<rparr>)
       (CodeString (js ''12345678901'')) (JStr (js ''EAN13'')) (optionsArg (JObj []))
     = Raise (Error ''EAN13 Barcode type requires code length 12'') (examplePrinter\<lparr>buffer := [0x41]\<rparr>)
   \<and> image_cmd exampleHost exampleCommands (examplePrinter\<lparr>buffer := [0x41]\<rparr>) OtherArg None
     = Raise (TypeError ''Only escpos.getImage supported'') (examplePrinter\<lparr>buffer := [0x41]\<rparr>)
   \<and> raster exampleHost exampleCommands (examplePrinter\<lparr>buffer := [0x41]\<rparr>) OtherArg None
     = Raise (TypeError ''Only escpos.getImage supported'') (examplePrinter\<lparr>buffer := [0x41]\<rparr>)"
proof -
  let ?p = "examplePrinter\<lparr>buffer := [0x41]\<rparr>"
  have o: "typeof (rest0 (optionsArg (JObj []))) = ''object''"
    by (simp add: optionsArg_def typeof_def)
  have b1: "barcode exampleHost exampleCommands ?p
       (CodeString (js ''12345678901'')) JUndefined (optionsArg (JObj []))
     = Raise (TypeError ''barcode type is required'') ?p"
    by (simp add: barcode_def resolveOptions_object [OF o] typeof_def)
  have b2: "barcode exampleHost exampleCommands ?p
       (CodeString (js ''12345678901'')) (JStr (js ''EAN13'')) (optionsArg (JObj []))
     = Raise (Error ''EAN13 Barcode type requires code length 12'') ?p"
    by (simp add: barcode_def resolveOptions_object [OF o] codeToString_def js_def typeof_def)
  have b3: "image_cmd exampleHost exampleCommands ?p OtherArg None
     = Raise (TypeError ''Only escpos.getImage supported'') ?p"
    by (simp add: image_cmd_def)
  have b4: "raster exampleHost exampleCommands ?p OtherArg None
     = Raise (TypeError ''Only escpos.getImage supported'') ?p"
    by (simp add: raster_def)
  note t = validation_errors_raised_before_any_byte [of exampleHost exampleCommands ?p
      "CodeString (js ''12345678901'')" JUndefined "optionsArg (JObj [])"
      "TypeError ''barcode type is required''" ?p OtherArg None None]
  from t b1 b2 b3 b4 show ?thesis by simp
qed

section \<open>Barcode: the checksum is always included\<close>

text \<open>
  C9. Whatever the caller passes, the resolved \<open>includeParity\<close> is \<open>true\<close>: an options object
  is taken for the legacy first argument, whose \<open>includeParity\<close> is the literal \<open>true\<close>, and
  \<open>false || true\<close> is \<open>true\<close>. So every call with type \<open>'EAN13'\<close> or \<open>'EAN8'\<close> that returns
  has written the payload, then the result of \<open>getParityBit\<close>, then NUL; for a payload of
  digits that result is the one checksum digit.
\<close>

theorem barcode_includeParity_always:
  "(resolveOptions rest = Inr options \<longrightarrow> opt_includeParity options = JBool True)
   \<and> jsOr (JBool False) (JBool True) = JBool True
   \<and> ((ty = js ''EAN13'' \<or> ty = js ''EAN8'') \<and> barcode h c p code (JStr ty) rest = Normal p' \<longrightarrow>
        (\<exists>opts p6. resolveOptions rest = Inr opts
           \<and> barcodePreamble h c opts (JStr ty) p = Normal p6
           \<and> barcodePayload h opts (JStr ty) (codeToString code)
               = codeToString code @ getParityBit (codeToString code) @ [0]
           \<and> p' = (let p7 = bufferWrite (codeToString code @ getParityBit (codeToString code) @ [0]) p6
                    in if isQsprinter p then bufferWrite (QS_BARCODE_MODE_OFF (QSPRINTER c)) p7 else p7)
           \<and> (list_all isDigit (codeToString code) \<longrightarrow>
                getParityBit (codeToString code) = [of_nat (48 + checksumSpec (codeToString code))])))"
proof -
  have a: "resolveOptions rest = Inr options \<longrightarrow> opt_includeParity options = JBool True"
    by (simp add: resolveOptions_includeParity)
  have b: "jsOr (JBool False) (JBool True) = JBool True"
    by (simp add: jsOr_def truthy_def)
  have n: "js ''EAN13'' \<noteq> js ''CODE128''" "js ''EAN13'' \<noteq> js ''CODE93''"
    "js ''EAN8'' \<noteq> js ''CODE128''" "js ''EAN8'' \<noteq> js ''CODE93''"
    by (simp_all add: js_def)
  have d: "list_all isDigit (codeToString code) \<longrightarrow>
      getParityBit (codeToString code) = [of_nat (48 + checksumSpec (codeToString code))]"
    using getParityBit_digits [of "codeToString code"] by (simp add: list_all_iff)
  have pl: "\<And>opts. opt_includeParity opts = JBool True \<Longrightarrow> ty = js ''EAN13'' \<or> ty = js ''EAN8'' \<Longrightarrow>
      barcodePayload h opts (JStr ty) (codeToString code)
        = codeToString code @ getParityBit (codeToString code) @ [0]"
    using n by (auto simp add: barcodePayload_def Let_def truthy_def)
  have c: "(ty = js ''EAN13'' \<or> ty = js ''EAN8'') \<and> barcode h c p code (JStr ty) rest = Normal p' \<longrightarrow>
        (\<exists>opts p6. resolveOptions rest = Inr opts
           \<and> barcodePreamble h c opts (JStr ty) p = Normal p6
           \<and> barcodePayload h opts (JStr ty) (codeToString code)
               = codeToString code @ getParityBit (codeToString code) @ [0]
           \<and> p' = (let p7 = bufferWrite (codeToString code @ getParityBit (codeToString code) @ [0]) p6
                    in if isQsprinter p then bufferWrite (QS_BARCODE_MODE_OFF (QSPRINTER c)) p7 else p7)
           \<and> (list_all isDigit (codeToString code) \<longrightarrow>
                getParityBit (codeToString code) = [of_nat (48 + checksumSpec (codeToString code))]))"
  proof (intro impI, elim conjE)
    assume ty: "ty = js ''EAN13'' \<or> ty = js ''EAN8''"
      and ok: "barcode h c p code (JStr ty) rest = Normal p'"
    from ok obtain opts where r: "resolveOptions rest = Inr opts"
      by (cases "resolveOptions rest") (simp_all add: barcode_def)
    from r have ip: "opt_includeParity opts = JBool True"
      by (rule resolveOptions_includeParity)
    from ok r obtain p6 where p6: "barcodePreamble h c opts (JStr ty) p = Normal p6"
      and p': "p' = (let p7 = bufferWrite (barcodePayload h opts (JStr ty) (codeToString code)) p6
                    in if isQsprinter p then bufferWrite (QS_BARCODE_MODE_OFF (QSPRINTER c)) p7 else p7)"
      by (auto simp add: barcode_def Let_def andThen_Normal split: if_splits)
    from r p6 p' pl [OF ip ty] d
    show "\<exists>opts p6. resolveOptions rest = Inr opts
           \<and> barcodePreamble h c opts (JStr ty) p = Normal p6
           \<and> barcodePayload h opts (JStr ty) (codeToString code)
               = codeToString code @ getParityBit (codeToString code) @ [0]
           \<and> p' = (let p7 = bufferWrite (codeToString code @ getParityBit (codeToString code) @ [0]) p6
                    in if isQsprinter p then bufferWrite (QS_BARCODE_MODE_OFF (QSPRINTER c)) p7 else p7)
           \<and> (list_all isDigit (codeToString code) \<longrightarrow>
                getParityBit (codeToString code) = [of_nat (48 + checksumSpec (codeToString code))])"
      by auto
  qed
  from a b c show ?thesis by blast
qed

theorem barcode_includeParity_always_witness:
  "resolveOptions (optionsArg (JObj [(''includeParity'', JBool False)]))
     = Inr \<lparr>opt_width = JObj [(''includeParity'', JBool False)], opt_height = None,
            opt_position = JStr (js ''blw''), opt_font = JStr (js ''a''), opt_includeParity = JBool True\<rparr>
   \<and> barcode exampleHost exampleCommands examplePrinter (CodeString (js ''400638133393''))
        (JStr (js ''EAN13'')) (optionsArg (JObj [(''includeParity'', JBool False)]))
      = Normal (examplePrinter\<lparr>buffer :=
          [0x1d, 0x77, 0x03, 0x1d, 0x68, 0x64, 0x1d, 0x66, 0, 0x1d, 0x48, 2, 0x1d, 0x6b, 0x02,
           0x34, 0x30, 0x30, 0x36, 0x33, 0x38, 0x31, 0x33, 0x33, 0x33, 0x39, 0x33, 0x31, 0]\<rparr>)
   \<and> barcodePayload exampleHost
        \<lparr>opt_width = JObj [(''includeParity'', JBool False)], opt_height = None,
         opt_position = JStr (js ''blw''), opt_font = JStr (js ''a''), opt_includeParity = JBool True\<rparr>
        (JStr (js ''EAN13'')) (js ''400638133393'')
      = js ''4006381333931'' @ [0]"
proof -
  let ?rest = "optionsArg (JObj [(''includeParity'', JBool False)])"
  let ?opts = "\<lparr>opt_width = JObj [(''includeParity'', JBool False)], opt_height = None,
            opt_position = JStr (js ''blw''), opt_font = JStr (js ''a''), opt_includeParity = JBool True\<rparr>"
  let ?p' = "examplePrinter\<lparr>buffer :=
          [0x1d, 0x77, 0x03, 0x1d, 0x68, 0x64, 0x1d, 0x66, 0, 0x1d, 0x48, 2, 0x1d, 0x6b, 0x02,
           0x34, 0x30, 0x30, 0x36, 0x33, 0x38, 0x31, 0x33, 0x33, 0x33, 0x39, 0x33, 0x31, 0]\<rparr>"
  have r: "resolveOptions ?rest = Inr ?opts" by code_simp
  have b: "barcode exampleHost exampleCommands examplePrinter (CodeString (js ''400638133393''))
        (JStr (js ''EAN13'')) ?rest = Normal ?p'" by code_simp
  have g: "codeToString (CodeString (js ''400638133393'')) @
      getParityBit (codeToString (CodeString (js ''400638133393''))) @ [0] = js ''4006381333931'' @ [0]"
    by code_simp
  from barcode_includeParity_always [of ?rest ?opts "js ''EAN13''" exampleHost exampleCommands
      examplePrinter "CodeString (js ''400638133393'')" ?p'] r b
  have "barcodePayload exampleHost ?opts (JStr (js ''EAN13'')) (codeToString (CodeString (js ''400638133393'')))
      = codeToString (CodeString (js ''400638133393'')) @
        getParityBit (codeToString (CodeString (js ''400638133393''))) @ [0]"
    by auto
  with g have "barcodePayload exampleHost ?opts (JStr (js ''EAN13'')) (js ''400638133393'')
      = js ''4006381333931'' @ [0]"
    by (simp add: codeToString_def)
  with r b show ?thesis by simp
qed

section \<open>Bitmap and raster projections\<close>

lemma and7: "(b::nat) AND 7 = b mod 8"
proof -
  have "(7::nat) = mask 3" by (simp add: mask_eq_exp_minus_1)
  then show ?thesis by (simp only: flip: take_bit_eq_mask) (simp add: take_bit_eq_mod)
qed

lemma shr_80: "drop_bit k (0x80::nat) = 128 div 2 ^ k"
  by (simp add: drop_bit_eq_div)

lemma bitmapStep_acc:
  "bitmapStep img density y x b =
   accStep (\<lambda>b. y * density + b < size_height img \<and> dataAt img ((y * density + b) * size_width img + x))
     (x * (density div 8)) b"
  by (rule ext) (simp add: bitmapStep_def accStep_def Let_def and7 shr_80 drop_bit_eq_div)

lemma rasterStep_acc:
  "b < 8 \<Longrightarrow> rasterStep img n y x b =
   accStep (\<lambda>b. x * 8 + b < size_width img \<and> dataAt img (y * size_width img + (x * 8 + b)))
     (y * n + x) b"
  by (rule ext) (simp add: rasterStep_def accStep_def Let_def and7 shr_80)

lemma accStep_append:
  "length xs = i \<Longrightarrow> b div 8 = q \<Longrightarrow> i = base + q \<Longrightarrow>
   accStep f base b xs = xs @ [Some (if f b then 128 div 2 ^ (b mod 8) else 0)]"
  by (simp add: accStep_def Let_def arrInit_def arrGet_def arrSet_def arrAdd_def nth_append
      list_update_append)

lemma accStep_update:
  "base + b div 8 < length xs \<Longrightarrow> xs ! (base + b div 8) = Some v \<Longrightarrow>
   accStep f base b xs = xs[base + b div 8 := Some (v + (if f b then 128 div 2 ^ (b mod 8) else 0))]"
  using list_update_id [of xs "base + b div 8"]
  by (simp add: accStep_def Let_def arrInit_def arrGet_def arrSet_def arrAdd_def)

lemma accBytes_Suc_aligned:
  assumes "m mod 8 = 0"
  shows "accBytes f (Suc m) = accBytes f m @ [Some (if f m then 128 div 2 ^ (m mod 8) else 0)]"
proof -
  from assms have q: "(m + 7) div 8 = m div 8" "(Suc m + 7) div 8 = Suc (m div 8)" "8 * (m div 8) = m"
    by arith+
  have "\<And>j. j < m div 8 \<Longrightarrow> min (8 * j + 8) (Suc m) = min (8 * j + 8) m"
    using q(3) by auto
  then have a: "map (\<lambda>j. Some (bitsVal f (8 * j) (min (8 * j + 8) (Suc m)))) [0..<m div 8]
      = map (\<lambda>j. Some (bitsVal f (8 * j) (min (8 * j + 8) m))) [0..<m div 8]"
    by simp
  have b0: "bitsVal f m (Suc m) = (if f m then 128 div 2 ^ (m mod 8) else 0)"
    by (simp add: bitsVal_def)
  have "min (m + 8) (Suc m) = Suc m" by simp
  with b0 have b: "bitsVal f (8 * (m div 8)) (min (8 * (m div 8) + 8) (Suc m)) = (if f m then 128 div 2 ^ (m mod 8) else 0)"
    by (simp only: q(3))
  show ?thesis
    by (simp add: accBytes_def q a b0)
qed

lemma accBytes_Suc_inside:
  assumes "m mod 8 \<noteq> 0"
  shows "accBytes f (Suc m) =
         (accBytes f m)[m div 8 := Some (bitsVal f (8 * (m div 8)) m + (if f m then 128 div 2 ^ (m mod 8) else 0))]"
    and "m div 8 < length (accBytes f m)"
    and "accBytes f m ! (m div 8) = Some (bitsVal f (8 * (m div 8)) m)"
proof -
  from assms have q: "(m + 7) div 8 = Suc (m div 8)" "(Suc m + 7) div 8 = Suc (m div 8)"
    "8 * (m div 8) \<le> m" "m < 8 * (m div 8) + 8" 
    by arith+
  show l: "m div 8 < length (accBytes f m)" by (simp add: accBytes_def q)
  have mn: "min (8 * (m div 8) + 8) m = m" "min (8 * (m div 8) + 8) (Suc m) = Suc m"
    using q(4) by auto
  show n: "accBytes f m ! (m div 8) = Some (bitsVal f (8 * (m div 8)) m)"
    using l by (simp add: accBytes_def q mn del: upt_Suc)
  have s: "bitsVal f (8 * (m div 8)) (Suc m) = bitsVal f (8 * (m div 8)) m + (if f m then 128 div 2 ^ (m mod 8) else 0)"
    unfolding bitsVal_def by (rule sum.atLeastLessThan_Suc [OF q(3)])
  have o: "\<And>j. j < m div 8 \<Longrightarrow> min (8 * j + 8) (Suc m) = min (8 * j + 8) m"
    using q(3) by auto
  show "accBytes f (Suc m) =
         (accBytes f m)[m div 8 := Some (bitsVal f (8 * (m div 8)) m + (if f m then 128 div 2 ^ (m mod 8) else 0))]"
  proof (rule nth_equalityI)
    show "length (accBytes f (Suc m)) = length ((accBytes f m)[m div 8 := Some (bitsVal f (8 * (m div 8)) m + (if f m then 128 div 2 ^ (m mod 8) else 0))])"
      by (simp add: accBytes_def q)
  next
    fix j assume "j < length (accBytes f (Suc m))"
    then have j: "j < Suc (m div 8)" by (simp add: accBytes_def q)
    show "accBytes f (Suc m) ! j = (accBytes f m)[m div 8 := Some (bitsVal f (8 * (m div 8)) m + (if f m then 128 div 2 ^ (m mod 8) else 0))] ! j"
    proof (cases "j = m div 8")
      case True
      then show ?thesis using l by (simp add: accBytes_def q mn s del: upt_Suc)
    next
      case False
      with j have "j < m div 8" by simp
      then show ?thesis using False l j by (simp add: accBytes_def q o del: upt_Suc)
    qed
  qed
qed

lemma acc_fold:
  "length xs = base \<Longrightarrow> fold (accStep f base) [0..<m] xs = xs @ accBytes f m"
proof (induction m)
  case 0
  show ?case by (simp add: accBytes_def)
next
  case (Suc m)
  then have ih: "fold (accStep f base) [0..<m] xs = xs @ accBytes f m" by simp
  have len: "length (accBytes f m) = (m + 7) div 8" by (simp add: accBytes_def)
  show ?case
  proof (cases "m mod 8 = 0")
    case True
    then have "(m + 7) div 8 = m div 8" by arith
    with Suc.prems len have "length (xs @ accBytes f m) = base + m div 8" by simp
    then have "accStep f base m (xs @ accBytes f m)
        = (xs @ accBytes f m) @ [Some (if f m then 128 div 2 ^ (m mod 8) else 0)]"
      by (rule accStep_append) simp_all
    then show ?thesis by (simp add: ih accBytes_Suc_aligned [OF True])
  next
    case False
    note i = accBytes_Suc_inside [OF False, of f]
    from i(2) Suc.prems have a: "base + m div 8 < length (xs @ accBytes f m)" by simp
    from i(3) Suc.prems have b: "(xs @ accBytes f m) ! (base + m div 8) = Some (bitsVal f (8 * (m div 8)) m)"
      by (simp add: nth_append)
    have "accStep f base m (xs @ accBytes f m)
        = (xs @ accBytes f m)[base + m div 8 := Some (bitsVal f (8 * (m div 8)) m + (if f m then 128 div 2 ^ (m mod 8) else 0))]"
      by (rule accStep_update [OF a b])
    also have "\<dots> = xs @ accBytes f (Suc m)"
      using Suc.prems by (simp add: i(1) list_update_append)
    finally show ?thesis by (simp add: ih)
  qed
qed

lemma length_concat_blocks:
  "(\<And>k. k < m \<Longrightarrow> length (A k) = c) \<Longrightarrow> length (concat (map A [0..<m])) = m * c"
  by (induction m) simp_all

lemma nth_concat_blocks:
  "(\<And>k. k < m \<Longrightarrow> length (A k) = c) \<Longrightarrow> k < m \<Longrightarrow> j < c \<Longrightarrow>
   concat (map A [0..<m]) ! (k * c + j) = A k ! j"
proof (induction m)
  case 0
  then show ?case by simp
next
  case (Suc m)
  have len: "length (concat (map A [0..<m])) = m * c"
    by (rule length_concat_blocks) (simp add: Suc.prems(1))
  show ?case
  proof (cases "k = m")
    case True
    then show ?thesis by (simp add: nth_append len)
  next
    case False
    with Suc.prems have km: "k < m" by simp
    then have "Suc k * c \<le> m * c" by (intro mult_le_mono1) simp
    with Suc.prems(3) have lt: "k * c + j < m * c" by simp
    have "concat (map A [0..<m]) ! (k * c + j) = A k ! j"
      by (rule Suc.IH) (simp_all add: Suc.prems km)
    with lt show ?thesis by (simp add: nth_append len)
  qed
qed

lemma fold_blocks_upto:
  assumes step: "\<And>k xs. k < n \<Longrightarrow> length xs = base + k * c \<Longrightarrow> G k xs = xs @ A k"
    and len: "\<And>k. k < n \<Longrightarrow> length (A k) = c"
    and base: "length xs0 = base"
  shows "m \<le> n \<Longrightarrow> fold G [0..<m] xs0 = xs0 @ concat (map A [0..<m])"
proof (induction m)
  case 0
  show ?case by simp
next
  case (Suc m)
  then have ih: "fold G [0..<m] xs0 = xs0 @ concat (map A [0..<m])" and mn: "m < n" by simp_all
  have "length (concat (map A [0..<m])) = m * c"
    by (rule length_concat_blocks) (use mn len in simp)
  with base have "length (xs0 @ concat (map A [0..<m])) = base + m * c" by simp
  from step [OF mn this] show ?case by (simp add: ih)
qed

lemma fold_blocks:
  assumes "\<And>k xs. k < n \<Longrightarrow> length xs = base + k * c \<Longrightarrow> G k xs = xs @ A k"
    and "\<And>k. k < n \<Longrightarrow> length (A k) = c"
    and "length xs0 = base"
  shows "fold G [0..<n] xs0 = xs0 @ concat (map A [0..<n])"
  using fold_blocks_upto [of n base c G A xs0 n] assms by simp

lemma bitsVal_byte:
  "bitsVal f (8 * j) (8 * j + 8) =
     (if f (8 * j) then 128 else 0) + (if f (8 * j + 1) then 64 else 0)
   + (if f (8 * j + 2) then 32 else 0) + (if f (8 * j + 3) then 16 else 0)
   + (if f (8 * j + 4) then 8 else 0) + (if f (8 * j + 5) then 4 else 0)
   + (if f (8 * j + 6) then 2 else 0) + (if f (8 * j + 7) then 1 else 0)"
proof -
  have "bitsVal f (8 * j) (8 * j + 8) = (\<Sum>t = 0..<8. if f (t + 8 * j) then 128 div 2 ^ ((t + 8 * j) mod 8) else 0)"
    unfolding bitsVal_def using sum.shift_bounds_nat_ivl [of _ 0 "8 * j" 8] by (simp add: add.commute)
  also have "\<dots> = (\<Sum>t = 0..<8. if f (8 * j + t) then 128 div 2 ^ t else 0)"
    by (rule sum.cong) (simp_all add: add.commute)
  also have "{0..<8::nat} = {0, 1, 2, 3, 4, 5, 6, 7}" by auto
  finally show ?thesis by simp
qed

lemma bitSet_byte:
  assumes "r < 8"
  shows "bitSet (Some ((if a0 then 128 else 0) + (if a1 then 64 else 0)
   + (if a2 then 32 else 0) + (if a3 then 16 else 0)
   + (if a4 then 8 else 0) + (if a5 then 4 else 0)
   + (if a6 then 2 else 0) + (if a7 then 1 else 0))) r
   = ([a0, a1, a2, a3, a4, a5, a6, a7] ! r)"
proof -
  from assms have "r = 0 \<or> r = 1 \<or> r = 2 \<or> r = 3 \<or> r = 4 \<or> r = 5 \<or> r = 6 \<or> r = 7" by arith
  then show ?thesis
    by (elim disjE) (simp_all add: bitSet_def)
qed

lemma bitSet_bitsVal:
  assumes "r < 8"
  shows "bitSet (Some (bitsVal f (8 * j) (8 * j + 8))) r = f (8 * j + r)"
proof -
  from assms have "r = 0 \<or> r = 1 \<or> r = 2 \<or> r = 3 \<or> r = 4 \<or> r = 5 \<or> r = 6 \<or> r = 7" by arith
  then have "[f (8 * j), f (8 * j + 1), f (8 * j + 2), f (8 * j + 3), f (8 * j + 4), f (8 * j + 5),
      f (8 * j + 6), f (8 * j + 7)] ! r = f (8 * j + r)"
    by (elim disjE) simp_all
  then show ?thesis
    by (simp only: bitsVal_byte bitSet_byte [OF assms])
qed

lemma inkBitmap_fun:
  "inkBitmap img density y x =
     (\<lambda>b. y * density + b < size_height img \<and> dataAt img ((y * density + b) * size_width img + x))"
  by (rule ext) (simp add: inkBitmap_def)

lemma inkRaster_fun:
  "inkRaster img y x =
     (\<lambda>b. x * 8 + b < size_width img \<and> dataAt img (y * size_width img + (x * 8 + b)))"
  by (rule ext) (simp add: inkRaster_def)

lemma accBytes_full:
  "accBytes f (8 * c) = map (\<lambda>j. Some (bitsVal f (8 * j) (8 * j + 8))) [0..<c]"
proof -
  have "(8 * c + 7) div 8 = c" by arith
  moreover have "\<And>j. j < c \<Longrightarrow> min (8 * j + 8) (8 * c) = 8 * j + 8" by auto
  ultimately show ?thesis by (simp add: accBytes_def)
qed

lemma bitmap_column:
  assumes "density = 8 * c" and "length ld = x * c"
  shows "fold (bitmapStep img density y x) [0..<density] ld
         = ld @ map (\<lambda>j. Some (bitsVal (inkBitmap img density y x) (8 * j) (8 * j + 8))) [0..<c]"
proof -
  have f: "bitmapStep img density y x = accStep (inkBitmap img density y x) (x * c)"
    by (rule ext) (simp add: bitmapStep_acc inkBitmap_fun assms(1))
  show ?thesis
    unfolding f using acc_fold [of ld "x * c" "inkBitmap img density y x" "8 * c"] assms
    by (simp add: accBytes_full)
qed

lemma bitmapLine_blocks:
  assumes "density = 8 * c"
  shows "bitmapLine img density y
         = concat (map (\<lambda>x. map (\<lambda>j. Some (bitsVal (inkBitmap img density y x) (8 * j) (8 * j + 8))) [0..<c])
             [0..<size_width img])"
  unfolding bitmapLine_def
  using fold_blocks [of "size_width img" 0 c
      "\<lambda>x ld. fold (bitmapStep img density y x) [0..<density] ld"
      "\<lambda>x. map (\<lambda>j. Some (bitsVal (inkBitmap img density y x) (8 * j) (8 * j + 8))) [0..<c]" "[]"]
    bitmap_column [OF assms]
  by simp

lemma bitmapLine_length:
  assumes "density = 8 * c"
  shows "length (bitmapLine img density y) = size_width img * c"
  unfolding bitmapLine_blocks [OF assms]
  by (rule length_concat_blocks) simp

lemma bitmapLine_nth:
  assumes "density = 8 * c" and "x < size_width img" and "j < c"
  shows "bitmapLine img density y ! (x * c + j)
         = Some (bitsVal (inkBitmap img density y x) (8 * j) (8 * j + 8))"
proof -
  have "bitmapLine img density y ! (x * c + j)
      = map (\<lambda>j. Some (bitsVal (inkBitmap img density y x) (8 * j) (8 * j + 8))) [0..<c] ! j"
    unfolding bitmapLine_blocks [OF assms(1)]
    by (rule nth_concat_blocks) (simp_all add: assms)
  with assms(3) show ?thesis by simp
qed

lemma decodeBitmap_ink:
  assumes d: "density = 8 * c" and y: "y < ceilDiv (size_height img) density"
    and x: "x < size_width img" and b: "b < density"
  shows "decodeBitmap (toBitmap img density) y x b = inkBitmap img density y x b"
proof -
  from b d have j: "b div 8 < c" by arith
  have c: "density div 8 = c" using d by simp
  have "x * c + b div 8 < size_width img * c"
  proof -
    from x have "Suc x * c \<le> size_width img * c" by (intro mult_le_mono1) simp
    with j show ?thesis by simp
  qed
  then have g: "arrGet (bitmapLine img density y) (x * c + b div 8)
      = Some (bitsVal (inkBitmap img density y x) (8 * (b div 8)) (8 * (b div 8) + 8))"
    by (simp add: arrGet_def bitmapLine_length [OF d] bitmapLine_nth [OF d x j])
  have "8 * (b div 8) + b mod 8 = b" by simp
  with bitSet_bitsVal [of "b mod 8" "inkBitmap img density y x" "b div 8"]
  have "bitSet (Some (bitsVal (inkBitmap img density y x) (8 * (b div 8)) (8 * (b div 8) + 8))) (b mod 8)
      = inkBitmap img density y x b"
    by simp
  with g y show ?thesis
    by (simp add: decodeBitmap_def toBitmap_def Let_def c)
qed

lemma raster_byte:
  assumes "length r = y * n + x"
  shows "fold (rasterStep img n y x) [0..<8] r = r @ [Some (bitsVal (inkRaster img y x) 0 8)]"
proof -
  have "fold (rasterStep img n y x) [0..<8] r = fold (accStep (inkRaster img y x) (y * n + x)) [0..<8] r"
    by (rule fold_cong) (simp_all add: rasterStep_acc inkRaster_fun)
  also have "\<dots> = r @ accBytes (inkRaster img y x) 8"
    by (rule acc_fold) (rule assms)
  also have "accBytes (inkRaster img y x) 8 = [Some (bitsVal (inkRaster img y x) 0 8)]"
    using accBytes_full [of "inkRaster img y x" 1] by simp
  finally show ?thesis .
qed

lemma raster_row:
  assumes "length r = y * n"
  shows "fold (\<lambda>x r. fold (rasterStep img n y x) [0..<8] r) [0..<n] r
         = r @ map (\<lambda>x. Some (bitsVal (inkRaster img y x) 0 8)) [0..<n]"
proof -
  have "fold (\<lambda>x r. fold (rasterStep img n y x) [0..<8] r) [0..<n] r
      = r @ concat (map (\<lambda>x. [Some (bitsVal (inkRaster img y x) 0 8)]) [0..<n])"
    by (rule fold_blocks [where c = 1 and base = "y * n"]) (simp_all add: raster_byte assms)
  also have "concat (map (\<lambda>x. [Some (bitsVal (inkRaster img y x) 0 8)]) [0..<n])
      = map (\<lambda>x. Some (bitsVal (inkRaster img y x) 0 8)) [0..<n]"
    by (induction n) simp_all
  finally show ?thesis .
qed

lemma raster_data_blocks:
  "raster_data (toRaster img)
   = concat (map (\<lambda>y. map (\<lambda>x. Some (bitsVal (inkRaster img y x) 0 8)) [0..<ceilDiv (size_width img) 8])
       [0..<size_height img])"
proof -
  have "fold (\<lambda>y r. fold (\<lambda>x r. fold (rasterStep img (ceilDiv (size_width img) 8) y x) [0..<8] r)
            [0..<ceilDiv (size_width img) 8] r) [0..<size_height img] []
      = [] @ concat (map (\<lambda>y. map (\<lambda>x. Some (bitsVal (inkRaster img y x) 0 8)) [0..<ceilDiv (size_width img) 8])
       [0..<size_height img])"
    by (rule fold_blocks [where c = "ceilDiv (size_width img) 8" and base = 0]) (simp_all add: raster_row)
  then show ?thesis by (simp add: toRaster_def Let_def)
qed

lemma raster_data_length:
  "length (raster_data (toRaster img)) = size_height img * ceilDiv (size_width img) 8"
  unfolding raster_data_blocks by (rule length_concat_blocks) simp

lemma decodeRaster_ink:
  assumes y: "y < size_height img" and x: "x < ceilDiv (size_width img) 8" and b: "b < 8"
  shows "decodeRaster (toRaster img) y x b = inkRaster img y x b"
proof -
  let ?n = "ceilDiv (size_width img) 8"
  have n: "raster_width (toRaster img) = ?n" by (simp add: toRaster_def Let_def)
  have "raster_data (toRaster img) ! (y * ?n + x)
      = map (\<lambda>x. Some (bitsVal (inkRaster img y x) 0 8)) [0..<?n] ! x"
    unfolding raster_data_blocks by (rule nth_concat_blocks) (simp_all add: y x)
  with x have e: "raster_data (toRaster img) ! (y * ?n + x) = Some (bitsVal (inkRaster img y x) 0 8)"
    by simp
  from y have "Suc y * ?n \<le> size_height img * ?n" by (intro mult_le_mono1) simp
  with x have lt: "y * ?n + x < size_height img * ?n" by simp
  from bitSet_bitsVal [OF b, of "inkRaster img y x" 0]
  have "bitSet (Some (bitsVal (inkRaster img y x) 0 8)) b = inkRaster img y x b" by simp
  with e lt show ?thesis
    by (simp add: decodeRaster_def n arrGet_def raster_data_length)
qed

lemma div_less_ceilDiv:
  assumes "0 < d" and "r < h"
  shows "r div d < ceilDiv h d"
proof -
  from assms(2) obtain k where h: "h = Suc k" by (cases h) simp_all
  with assms(2) have "r \<le> k" by simp
  then have "r div d \<le> k div d" by (rule div_le_mono)
  moreover have "(k + d) div d = k div d + 1" using assms(1) by simp
  then have "ceilDiv h d = k div d + 1" by (simp add: ceilDiv_def h)
  ultimately show ?thesis by simp
qed

lemma index_split:
  fixes i w h :: nat
  assumes "i < w * h"
  shows "i div w < h" and "i mod w < w" and "i div w * w + i mod w = i"
proof -
  from assms have w: "0 < w" by (cases w) simp_all
  from assms show "i div w < h" by (simp add: less_mult_imp_div_less mult.commute)
  from w show "i mod w < w" by simp
  show "i div w * w + i mod w = i" by simp
qed

lemma maskFromBitmap_data:
  assumes d: "density = 8 * c" and c: "0 < c"
    and len: "length (data img) = size_width img * size_height img"
  shows "maskFromBitmap (toBitmap img density) (size_width img) (size_height img) = data img"
proof (rule nth_equalityI)
  show "length (maskFromBitmap (toBitmap img density) (size_width img) (size_height img)) = length (data img)"
    by (simp add: maskFromBitmap_def len)
next
  fix i
  assume "i < length (maskFromBitmap (toBitmap img density) (size_width img) (size_height img))"
  then have i: "i < size_width img * size_height img" by (simp add: maskFromBitmap_def)
  note s = index_split [OF i]
  let ?row = "i div size_width img" and ?col = "i mod size_width img"
  from d c have dp: "0 < density" by simp
  have y: "?row div density < ceilDiv (size_height img) density"
    by (rule div_less_ceilDiv [OF dp s(1)])
  have b: "?row mod density < density" using dp by simp
  have dens: "bitmap_density (toBitmap img density) = density" by (simp add: toBitmap_def Let_def)
  have "decodeBitmap (toBitmap img density) (?row div density) ?col (?row mod density)
      = inkBitmap img density (?row div density) ?col (?row mod density)"
    by (rule decodeBitmap_ink [OF d y s(2) b])
  also have "\<dots> = dataAt img i"
    using s(1) by (simp add: inkBitmap_def)
  also have "\<dots> = data img ! i"
    using i len by (simp add: dataAt_def)
  finally show "maskFromBitmap (toBitmap img density) (size_width img) (size_height img) ! i = data img ! i"
    using i by (simp add: maskFromBitmap_def dens)
qed

lemma maskFromRaster_data:
  assumes len: "length (data img) = size_width img * size_height img"
  shows "maskFromRaster (toRaster img) (size_width img) = data img"
proof (rule nth_equalityI)
  show "length (maskFromRaster (toRaster img) (size_width img)) = length (data img)"
    by (simp add: maskFromRaster_def len toRaster_def Let_def)
next
  fix i
  assume "i < length (maskFromRaster (toRaster img) (size_width img))"
  then have i: "i < size_width img * size_height img"
    by (simp add: maskFromRaster_def toRaster_def Let_def)
  note s = index_split [OF i]
  let ?row = "i div size_width img" and ?col = "i mod size_width img"
  have x: "?col div 8 < ceilDiv (size_width img) 8"
    by (rule div_less_ceilDiv [OF _ s(2)]) simp
  have b: "?col mod 8 < 8" by simp
  have "decodeRaster (toRaster img) ?row (?col div 8) (?col mod 8)
      = inkRaster img ?row (?col div 8) (?col mod 8)"
    by (rule decodeRaster_ink [OF s(1) x b])
  also have "\<dots> = dataAt img i"
    using s(2) by (simp add: inkRaster_def)
  also have "\<dots> = data img ! i"
    using i len by (simp add: dataAt_def)
  finally show "maskFromRaster (toRaster img) (size_width img) ! i = data img ! i"
    using i by (simp add: maskFromRaster_def toRaster_def Let_def)
qed

text \<open>
  C6. For a density of 8, 16 or 24 and an ink mask of positive width and height:
  the bit \<open>0x80 >> (b mod 8)\<close> of byte \<open>x * (density / 8) + b div 8\<close> of block \<open>y\<close> of
  \<open>toBitmap\<close>'s output is the mask at row \<open>y * density + b\<close> and column \<open>x\<close>, and is unset
  when that row is not below the height; the bit \<open>0x80 >> b\<close> of byte \<open>y * n + x\<close> of
  \<open>toRaster\<close>'s output is the mask at row \<open>y\<close> and column \<open>x * 8 + b\<close>, and is unset when
  that column is not below the width. So the mask rebuilt from either projection
  is the mask itself.
\<close>

theorem projections_roundtrip:
  assumes "density \<in> {8, 16, 24}" and "0 < size_width img" and "0 < size_height img"
  shows "(\<forall>y x b. y < ceilDiv (size_height img) density \<and> x < size_width img \<and> b < density \<longrightarrow>
            decodeBitmap (toBitmap img density) y x b
            = (y * density + b < size_height img
               \<and> dataAt img ((y * density + b) * size_width img + x)))
       \<and> (\<forall>y x b. y < size_height img \<and> x < ceilDiv (size_width img) 8 \<and> b < 8 \<longrightarrow>
            decodeRaster (toRaster img) y x b
            = (x * 8 + b < size_width img \<and> dataAt img (y * size_width img + (x * 8 + b))))
       \<and> (length (data img) = size_width img * size_height img \<longrightarrow>
            maskFromBitmap (toBitmap img density) (size_width img) (size_height img) = data img
            \<and> maskFromRaster (toRaster img) (size_width img) = data img)"
proof -
  from assms(1) have "density = 8 * 1 \<or> density = 8 * 2 \<or> density = 8 * 3" by auto
  then obtain c where d: "density = 8 * c" and c: "0 < c" by fastforce
  have 1: "\<forall>y x b. y < ceilDiv (size_height img) density \<and> x < size_width img \<and> b < density \<longrightarrow>
            decodeBitmap (toBitmap img density) y x b
            = (y * density + b < size_height img
               \<and> dataAt img ((y * density + b) * size_width img + x))"
    using decodeBitmap_ink [OF d] by (simp add: inkBitmap_def)
  have 2: "\<forall>y x b. y < size_height img \<and> x < ceilDiv (size_width img) 8 \<and> b < 8 \<longrightarrow>
            decodeRaster (toRaster img) y x b
            = (x * 8 + b < size_width img \<and> dataAt img (y * size_width img + (x * 8 + b)))"
    using decodeRaster_ink by (simp add: inkRaster_def)
  have 3: "length (data img) = size_width img * size_height img \<longrightarrow>
            maskFromBitmap (toBitmap img density) (size_width img) (size_height img) = data img
            \<and> maskFromRaster (toRaster img) (size_width img) = data img"
    using maskFromBitmap_data [OF d c] maskFromRaster_data by simp
  from 1 2 3 show ?thesis by blast
qed
theorem projections_roundtrip_witness:
  "(8::nat) \<in> {8, 16, 24} \<and> 0 < size_width exampleImage \<and> 0 < size_height exampleImage
   \<and> length (data exampleImage) = size_width exampleImage * size_height exampleImage
   \<and> bitmap_data (toBitmap exampleImage 8) = [[Some 0xA0, Some 0x60], [Some 0x80, Some 0x80]]
   \<and> raster_data (toRaster exampleImage)
       = [Some 0x80, Some 0x40, Some 0xC0, Some 0, Some 0, Some 0, Some 0, Some 0, Some 0xC0]
   \<and> maskFromBitmap (toBitmap exampleImage 8) 2 9 = data exampleImage
   \<and> maskFromRaster (toRaster exampleImage) 2 = data exampleImage"
proof -
  have a: "(8::nat) \<in> {8, 16, 24}" "0 < size_width exampleImage" "0 < size_height exampleImage"
    and l: "length (data exampleImage) = size_width exampleImage * size_height exampleImage"
    and w: "size_width exampleImage = 2" "size_height exampleImage = 9"
    by (simp_all add: exampleImage_def)
  have b: "bitmap_data (toBitmap exampleImage 8) = [[Some 0xA0, Some 0x60], [Some 0x80, Some 0x80]]"
    by code_simp
  have r: "raster_data (toRaster exampleImage)
       = [Some 0x80, Some 0x40, Some 0xC0, Some 0, Some 0, Some 0, Some 0, Some 0, Some 0xC0]"
    by code_simp
  from projections_roundtrip [OF a] l w
  have "maskFromBitmap (toBitmap exampleImage 8) 2 9 = data exampleImage
      \<and> maskFromRaster (toRaster exampleImage) 2 = data exampleImage"
    by simp
  with a l b r show ?thesis by simp
qed

section \<open>Image emission\<close>

lemma writeUInt16LE_nat:
  "k < 65536 \<Longrightarrow> writeUInt16LE (int k) p = Normal (p\<lparr>buffer := buffer p @ uint16LE k\<rparr>)"
proof -
  assume k: "k < 65536"
  have "int k div 256 = int (k div 256)" by (simp add: zdiv_int)
  with k show ?thesis by (simp add: writeUInt16LE_def uint16LE_def)
qed

lemma writeUInt16LE_above:
  "65536 \<le> k \<Longrightarrow> writeUInt16LE (int k) p = Raise (RangeError ''value is out of range'') p"
  by (simp add: writeUInt16LE_def)

lemma writeLine_buffer:
  "length line div n < 65536 \<Longrightarrow> writeLine c header n line p
   = Normal (p\<lparr>buffer := buffer p @ lineRecord header (length line div n) (EOL c) line\<rparr>)"
  by (simp add: writeLine_def Let_def writeUInt16LE_nat bufferWrite_def writeArray_def lineRecord_def
      andThen_simps)

lemma writeLine_above:
  "65536 \<le> length line div n \<Longrightarrow> writeLine c header n line p
   = Raise (RangeError ''value is out of range'') (bufferWrite header p)"
  by (simp add: writeLine_def Let_def writeUInt16LE_above andThen_simps)

lemma fold_writeLine:
  "list_all (\<lambda>line. length line div n < 65536) lines \<Longrightarrow>
   fold (\<lambda>line r. andThen r (writeLine c header n line)) lines (Normal p)
   = Normal (p\<lparr>buffer := buffer p @ concat (map (\<lambda>line. lineRecord header (length line div n) (EOL c) line) lines)\<rparr>)"
proof (induction lines arbitrary: p)
  case Nil
  show ?case by simp
next
  case (Cons line lines)
  from Cons.prems have l: "length line div n < 65536"
    and ls: "list_all (\<lambda>line. length line div n < 65536) lines" by simp_all
  let ?q = "p\<lparr>buffer := buffer p @ lineRecord header (length line div n) (EOL c) line\<rparr>"
  have "fold (\<lambda>line r. andThen r (writeLine c header n line)) (line # lines) (Normal p)
      = fold (\<lambda>line r. andThen r (writeLine c header n line)) lines (Normal ?q)"
    by (simp add: andThen_simps writeLine_buffer [OF l])
  also have "\<dots> = Normal (?q\<lparr>buffer := buffer ?q
      @ concat (map (\<lambda>line. lineRecord header (length line div n) (EOL c) line) lines)\<rparr>)"
    by (rule Cons.IH [OF ls])
  also have "\<dots> = Normal (p\<lparr>buffer := buffer p
      @ concat (map (\<lambda>line. lineRecord header (length line div n) (EOL c) line) (line # lines))\<rparr>)"
    by simp
  finally show ?case .
qed

lemma fold_Raise:
  "fold (\<lambda>line r. andThen r (f line)) lines (Raise e p) = Raise e p"
  by (induction lines) (simp_all add: andThen_simps)

lemma bytesPerColumn_cases: "bytesPerColumn h density = 1 \<or> bytesPerColumn h density = 3"
  by (simp add: bytesPerColumn_def)

lemma toBitmap_line_length:
  assumes "0 < n" and "line \<in> set (bitmap_data (toBitmap img (n * 8)))"
  shows "length line = size_width img * n"
proof -
  from assms(2) obtain y where "line = bitmapLine img (n * 8) y"
    by (auto simp add: toBitmap_def Let_def)
  then show ?thesis using bitmapLine_length [of "n * 8" n img y] by (simp add: mult.commute)
qed

lemma image_lines_width:
  assumes "0 < n"
  shows "map (\<lambda>line. lineRecord header (length line div n) t line) (bitmap_data (toBitmap img (n * 8)))
       = map (\<lambda>line. lineRecord header (size_width img) t line) (bitmap_data (toBitmap img (n * 8)))"
proof (rule map_cong [OF refl])
  fix line assume "line \<in> set (bitmap_data (toBitmap img (n * 8)))"
  from toBitmap_line_length [OF assms this] assms
  show "lineRecord header (length line div n) t line = lineRecord header (size_width img) t line"
    by simp
qed

lemma toBitmap_no_lines:
  "0 < n \<Longrightarrow> bitmap_data (toBitmap img (n * 8)) = [] \<longleftrightarrow> size_height img = 0"
  by (auto simp add: toBitmap_def Let_def ceilDiv_def div_eq_0_iff)

text \<open>
  C7 as stated fails: the 16-bit field after the header is not the line's byte
  length. For the image of one pixel at the default density the line has 3 bytes
  and the field holds 1; the output differs from the stream with the byte length in
  that field, with or without the line terminator that the code also writes.
\<close>

theorem image_length_field_counterexample:
  "image_cmd exampleHost exampleCommands examplePrinter (PrintImageArg dotImage) None
     = Normal (examplePrinter\<lparr>buffer :=
         [0x1b, 0x33, 0, 0x1b, 0x2a, 0x21, 1, 0, 0x80, 0, 0, 0x0a, 0x1b, 0x32]\<rparr>)
   \<and> bitmap_data (toBitmap dotImage 24) = [[Some 0x80, Some 0, Some 0]]
   \<and> imageStream exampleCommands [0x1b, 0x2a, 0x21] length [] (bitmap_data (toBitmap dotImage 24))
       = [0x1b, 0x33, 0, 0x1b, 0x2a, 0x21, 3, 0, 0x80, 0, 0, 0x1b, 0x32]
   \<and> imageStream exampleCommands [0x1b, 0x2a, 0x21] length [0x0a] (bitmap_data (toBitmap dotImage 24))
       = [0x1b, 0x33, 0, 0x1b, 0x2a, 0x21, 3, 0, 0x80, 0, 0, 0x0a, 0x1b, 0x32]
   \<and> image_cmd exampleHost exampleCommands examplePrinter (PrintImageArg dotImage) None
     \<noteq> Normal (examplePrinter\<lparr>buffer :=
         imageStream exampleCommands [0x1b, 0x2a, 0x21] length [] (bitmap_data (toBitmap dotImage 24))\<rparr>)
   \<and> image_cmd exampleHost exampleCommands examplePrinter (PrintImageArg dotImage) None
     \<noteq> Normal (examplePrinter\<lparr>buffer :=
         imageStream exampleCommands [0x1b, 0x2a, 0x21] length [0x0a] (bitmap_data (toBitmap dotImage 24))\<rparr>)"
  by code_simp

text \<open>
  C7, amended. For every image and density string, \<open>image\<close> writes the
  set-line-spacing command with the value 0, then for each bitmap line the header of
  the density, the width of the image (the line's byte length divided by the bytes
  per column \<open>n\<close>, which is 1 for \<open>D8\<close> and \<open>S8\<close> and 3 otherwise) as two bytes, low byte
  first, the line's bytes and the end-of-line string, and after all lines the
  restore-default-line-spacing command. The width field holds a width up to 65535:
  for a wider image with at least one line the buffer refuses the field of the first
  line, and the call throws a RangeError after the line-spacing command and the
  first header.
\<close>

theorem image_stream:
  "image_cmd h c p (PrintImageArg img) density0 =
     (if size_width img < 65536 \<or> size_height img = 0
      then Normal (p\<lparr>buffer := buffer p @
         imageStream c
           (BITMAP_FORMAT c (upperCase h (case density0 of None \<Rightarrow> js ''d24'' | Some d \<Rightarrow> d)))
           (\<lambda>line. size_width img) (EOL c)
           (bitmap_data (toBitmap img
              (bytesPerColumn h (case density0 of None \<Rightarrow> js ''d24'' | Some d \<Rightarrow> d) * 8)))\<rparr>)
      else Raise (RangeError ''value is out of range'')
         (p\<lparr>buffer := buffer p @ utf8 (LS_SET c) @ [0]
            @ utf8 (BITMAP_FORMAT c (upperCase h (case density0 of None \<Rightarrow> js ''d24'' | Some d \<Rightarrow> d)))\<rparr>))
   \<and> list_all (\<lambda>line. length line
                     = size_width img * bytesPerColumn h (case density0 of None \<Rightarrow> js ''d24'' | Some d \<Rightarrow> d))
       (bitmap_data (toBitmap img (bytesPerColumn h (case density0 of None \<Rightarrow> js ''d24'' | Some d \<Rightarrow> d) * 8)))
   \<and> bytesPerColumn h (case density0 of None \<Rightarrow> js ''d24'' | Some d \<Rightarrow> d)
       = (if upperCase h (case density0 of None \<Rightarrow> js ''d24'' | Some d \<Rightarrow> d) \<in> {js ''D8'', js ''S8''}
          then 1 else 3)"
proof -
  let ?density = "case density0 of None \<Rightarrow> js ''d24'' | Some d \<Rightarrow> d"
  let ?n = "bytesPerColumn h ?density"
  let ?header = "BITMAP_FORMAT c (upperCase h ?density)"
  let ?lines = "bitmap_data (toBitmap img (?n * 8))"
  let ?p1 = "p\<lparr>buffer := buffer p @ utf8 (LS_SET c) @ [0]\<rparr>"
  have n: "0 < ?n" using bytesPerColumn_cases [of h ?density] by auto
  have ls: "lineSpace c (Some 0) p = Normal ?p1"
    by (simp add: lineSpace_def writeUInt8_def bufferWrite_def)
  have 2: "list_all (\<lambda>line. length line = size_width img * ?n) ?lines"
    using toBitmap_line_length [OF n] by (simp add: list_all_iff)
  have 3: "?n = (if upperCase h ?density \<in> {js ''D8'', js ''S8''} then 1 else 3)"
    by (simp add: bytesPerColumn_def)
  have 1: "image_cmd h c p (PrintImageArg img) density0 =
     (if size_width img < 65536 \<or> size_height img = 0
      then Normal (p\<lparr>buffer := buffer p @
         imageStream c ?header (\<lambda>line. size_width img) (EOL c) ?lines\<rparr>)
      else Raise (RangeError ''value is out of range'')
         (p\<lparr>buffer := buffer p @ utf8 (LS_SET c) @ [0] @ utf8 ?header\<rparr>))"
  proof (cases "size_width img < 65536 \<or> size_height img = 0")
    case True
    have w: "list_all (\<lambda>line. length line div ?n < 65536) ?lines"
    proof (cases "size_height img = 0")
      case True
      with toBitmap_no_lines [OF n, of img] show ?thesis by simp
    next
      case False
      with True have "size_width img < 65536" by simp
      with 2 n show ?thesis by (simp add: list_all_iff)
    qed
    have "image_cmd h c p (PrintImageArg img) density0 =
        andThen (fold (\<lambda>line r. andThen r (writeLine c ?header ?n line)) ?lines (Normal ?p1))
          (lineSpace c None)"
      by (simp add: image_cmd_def Let_def ls)
    also have "\<dots> = Normal (p\<lparr>buffer := buffer p @
         imageStream c ?header (\<lambda>line. size_width img) (EOL c) ?lines\<rparr>)"
      by (simp add: fold_writeLine [OF w] andThen_simps lineSpace_def bufferWrite_def
          imageStream_def image_lines_width [OF n])
    finally show ?thesis using True by simp
  next
    case False
    then have wd: "65536 \<le> size_width img" and ht: "size_height img \<noteq> 0" by simp_all
    from ht toBitmap_no_lines [OF n, of img] obtain line lines where l: "?lines = line # lines"
      by (cases ?lines) simp_all
    then have "line \<in> set ?lines" by simp
    from toBitmap_line_length [OF n this] n wd have "65536 \<le> length line div ?n" by simp
    then have wl: "writeLine c ?header ?n line ?p1
        = Raise (RangeError ''value is out of range'') (bufferWrite ?header ?p1)"
      by (rule writeLine_above)
    have "image_cmd h c p (PrintImageArg img) density0 =
        andThen (fold (\<lambda>line r. andThen r (writeLine c ?header ?n line)) ?lines (Normal ?p1))
          (lineSpace c None)"
      by (simp add: image_cmd_def Let_def ls)
    also have "\<dots> = Raise (RangeError ''value is out of range'') (bufferWrite ?header ?p1)"
      unfolding l by (simp add: andThen_simps wl fold_Raise)
    finally show ?thesis using False by (simp add: bufferWrite_def)
  qed
  from 1 2 3 show ?thesis by blast
qed

section \<open>Table layout: the cells after the call\<close>

lemma tableCell_enabled:
  "secondLineEnabled (tableCell h c bw w a s) = (secondLineEnabled s \<or> overflows bw w a s)"
  by (simp add: tableCell_def Let_def overflows_def)

lemma tableCell_secondLine:
  "secondLine (tableCell h c bw w a s) = secondLine s @ [a]"
  by (simp add: tableCell_def Let_def)

lemma tableCell_store_fits:
  "\<not> overflows bw w a s \<Longrightarrow>
   store (tableCell h c bw w a s) = (store s)(a := (store s a)\<lparr>cell_text := []\<rparr>)"
  by (simp add: tableCell_def Let_def overflows_def)

lemma tableCell_store_overflow:
  "overflows bw w a s \<Longrightarrow>
   store (tableCell h c bw w a s)
   = (store s)(a := (store s a)\<lparr>cell_text :=
        textSubstring (cell_text (store s a)) (cellWidthOf bw w (store s a) (cellWidth s)) None\<rparr>)"
  by (simp add: tableCell_def Let_def overflows_def)

lemma tableCell_cellWidth:
  "cellWidth (tableCell h c bw w a s) = cellWidthOf bw w (store s a) (cellWidth s)"
  by (simp add: tableCell_def Let_def)

lemma fold_tableCell_secondLine:
  "secondLine (fold (tableCell h c bw w) row s) = secondLine s @ row"
  by (induction row arbitrary: s) (simp_all add: tableCell_secondLine)

lemma fold_tableCell_fits:
  "\<not> secondLineEnabled (fold (tableCell h c bw w) row s) \<Longrightarrow>
   \<forall>a \<in> set row. cell_text (store (fold (tableCell h c bw w) row s) a) = []"
proof (induction row rule: rev_induct)
  case Nil
  show ?case by simp
next
  case (snoc a row)
  let ?s = "fold (tableCell h c bw w) row s"
  from snoc.prems have e: "\<not> secondLineEnabled ?s" and o: "\<not> overflows bw w a ?s"
    by (simp_all add: tableCell_enabled)
  from snoc.IH [OF e] have ih: "\<forall>b \<in> set row. cell_text (store ?s b) = []" .
  show ?case
    using ih by (simp add: tableCell_store_fits [OF o])
qed

lemma tableRow_parts:
  "tableRow h c options row ps = ((p1, st1), sl, en) \<Longrightarrow>
   sl = row \<and> (\<not> en \<longrightarrow> (\<forall>a \<in> set row. cell_text (st1 a) = []))"
  using fold_tableCell_fits [of h c _ "tbl_width options" row]
  by (auto simp add: tableRow_def Let_def fold_tableCell_secondLine)

lemma cleared_when_returned:
  assumes "tableCustom h c options row ps = Some ps'"
  shows "\<forall>a \<in> set row. cell_text (snd ps' a) = []"
proof (rule tableCustom.raw_induct
    [where P = "\<lambda>h c options row ps ps'. \<forall>a \<in> set row. cell_text (snd ps' a) = []", OF _ assms])
  fix tc h c options row ps ps'
  assume ih: "\<And>h c options row ps ps'. tc h c options row ps = Some ps'
      \<Longrightarrow> \<forall>a \<in> set row. cell_text (snd ps' a) = []"
    and body: "(case tableRow h c options row ps of
        (ps1, secondLine', enabled) \<Rightarrow>
          if enabled then tc h c options secondLine' ps1 else Some ps1) = Some ps'"
  obtain p1 st1 sl en where t: "tableRow h c options row ps = ((p1, st1), sl, en)"
    by (metis surj_pair)
  from tableRow_parts [OF t] have sl: "sl = row"
    and fits: "\<not> en \<Longrightarrow> \<forall>a \<in> set row. cell_text (st1 a) = []"
    by simp_all
  show "\<forall>a \<in> set row. cell_text (snd ps' a) = []"
  proof (cases en)
    case True
    with body t sl have "tc h c options row (p1, st1) = Some ps'" by simp
    then show ?thesis by (rule ih)
  next
    case False
    with body t have "ps' = (p1, st1)" by simp
    with fits [OF False] show ?thesis by simp
  qed
qed

lemma tableRow_plainCell:
  assumes "st a = plainCell t"
  shows "\<exists>p1. tableRow h c unitSize [a] (p, st)
           = ((p1, st(a := plainCell (if width p < textLength t
                                      then textSubstring t (of_nat (width p)) None else []))),
              [a], width p < textLength t)
         \<and> width p1 = width p"
proof -
  have cw: "cellWidthOf bw k (plainCell x) w = w" for bw k w x
    by (simp add: cellWidthOf_def plainCell_def)
  have tx: "cell_text (plainCell x) = x" for x
    by (simp add: plainCell_def)
  have o: "overflows bw k a s = (cellWidth s < of_nat (textLength t))" if "store s a = plainCell t" for bw k s
    using that by (simp add: overflows_def cw tx)
  have u: "(plainCell t)\<lparr>cell_text := x\<rparr> = plainCell x" for x
    by (simp add: plainCell_def)
  have st: "store (tableCell h c bw k a s) = (store s)(a := plainCell (if cellWidth s < of_nat (textLength t)
        then textSubstring t (cellWidth s) None else []))" if "store s a = plainCell t" for bw k s
  proof (cases "overflows bw k a s")
    case True
    with o [OF that] tableCell_store_overflow [OF True, of h c] that show ?thesis
      by (simp add: cw u tx)
  next
    case False
    with o [OF that] tableCell_store_fits [OF False, of h c] that show ?thesis
      by (simp add: u)
  qed
  show ?thesis
    using assms
    by (simp add: tableRow_def Let_def unitSize_def tableCell_enabled tableCell_secondLine o st
        writeBuffer_def cw tx)
qed

lemma example_text_metrics:
  "textLength (js ''abcdef'') = 6" "textLength (js ''ef'') = 2"
  "textSubstring (js ''abcdef'') 4 None = js ''ef''"
  by code_simp+

text \<open>
  C10. The continuation row is the row itself, the same references, and when the
  outermost call returns the text of every cell object of the row is the empty
  string.
\<close>

theorem tableCustom_clears_texts:
  assumes "0 < tbl_width options"
  shows "(tableCustom h c options row ps = Some ps' \<longrightarrow> (\<forall>a \<in> set row. cell_text (snd ps' a) = []))
         \<and> fst (snd (tableRow h c options row ps)) = row"
proof -
  have "fst (snd (tableRow h c options row ps)) = row"
    by (simp add: tableRow_def Let_def fold_tableCell_secondLine)
  with cleared_when_returned [of h c options row ps ps'] show ?thesis by simp
qed

theorem tableCustom_clears_texts_witness:
  "0 < tbl_width unitSize
   \<and> (\<exists>p2. tableCustom exampleHost exampleCommands unitSize [0]
              (examplePrinter\<lparr>width := 4\<rparr>, \<lambda>a. plainCell (js ''abcdef''))
            = Some (p2, (\<lambda>a. plainCell (js ''abcdef''))(0 := plainCell [])))
   \<and> cell_text (((\<lambda>a. plainCell (js ''abcdef''))(0 := plainCell [])) 0) = []
   \<and> fst (snd (tableRow exampleHost exampleCommands unitSize [0]
                 (examplePrinter\<lparr>width := 4\<rparr>, \<lambda>a. plainCell (js ''abcdef'')))) = [0]"
proof -
  let ?p = "examplePrinter\<lparr>width := 4\<rparr>"
  let ?st = "\<lambda>a::addr. plainCell (js ''abcdef'')"
  let ?st1 = "?st(0 := plainCell (js ''ef''))"
  let ?st2 = "?st(0 := plainCell [])"
  have w: "width ?p = 4" by simp
  have u: "0 < tbl_width unitSize" by (simp add: unitSize_def)
  from tableRow_plainCell [of ?st 0 "js ''abcdef''" exampleHost exampleCommands ?p]
  obtain p1 where r1: "tableRow exampleHost exampleCommands unitSize [0] (?p, ?st) = ((p1, ?st1), [0], True)"
    and w1: "width p1 = 4"
    by (auto simp add: example_text_metrics)
  from tableRow_plainCell [of ?st1 0 "js ''ef''" exampleHost exampleCommands p1]
  obtain p2 where r2: "tableRow exampleHost exampleCommands unitSize [0] (p1, ?st1) = ((p2, ?st2), [0], False)"
    by (auto simp add: example_text_metrics w1)
  have "tableCustom exampleHost exampleCommands unitSize [0] (?p, ?st)
      = tableCustom exampleHost exampleCommands unitSize [0] (p1, ?st1)"
    by (subst tableCustom.simps) (simp add: r1)
  also have "\<dots> = Some (p2, ?st2)"
    by (subst tableCustom.simps) (simp add: r2)
  finally have t: "tableCustom exampleHost exampleCommands unitSize [0] (?p, ?st) = Some (p2, ?st2)" .
  from tableCustom_clears_texts [OF u, of exampleHost exampleCommands "[0]" "(?p, ?st)" "(p2, ?st2)"] t
  have c: "cell_text (?st2 0) = []"
    and s: "fst (snd (tableRow exampleHost exampleCommands unitSize [0] (?p, ?st))) = [0]"
    by simp_all
  show ?thesis
  proof (intro conjI)
    show "\<exists>p2. tableCustom exampleHost exampleCommands unitSize [0] (?p, ?st) = Some (p2, ?st2)"
      using t by (rule exI [of _ p2])
  qed (use u c s in simp_all)
qed

section \<open>Table layout: a row that never stops overflowing\<close>

lemma textLength_wide: "textLength [0x4E2D] = 2"
  by (simp add: textLength_def charLength_def)

lemma textSubstring_wide: "textSubstring [0x4E2D] 1 None = [0x4E2D]"
  by (simp add: textSubstring_def substringStep_def Let_def charLength_def notEnd_def)

lemma tableRow_wide:
  assumes "snd ps 0 = wideCell"
  shows "\<exists>p1 st1. tableRow h c unitSize [0] ps = ((p1, st1), [0], True) \<and> st1 0 = wideCell"
proof -
  have "cellWidthOf bw 1 wideCell cw = 1" for bw cw
    by (simp add: cellWidthOf_def wideCell_def)
  then have o: "overflows bw 1 0 s" if "store s 0 = wideCell" for bw s
    using that by (simp add: overflows_def textLength_wide wideCell_def)
  have st: "store (tableCell h c bw 1 0 s) 0 = wideCell" if "store s 0 = wideCell" for bw s
    using that tableCell_store_overflow [OF o [OF that], of h c]
    by (simp add: wideCell_def cellWidthOf_def textSubstring_wide)
  show ?thesis
    using assms o st
    by (simp add: tableRow_def Let_def unitSize_def tableCell_enabled tableCell_secondLine)
qed

lemma no_return_from_wideCell:
  assumes "tableCustom h c options row ps = Some y"
  shows "snd ps 0 \<noteq> wideCell \<or> options \<noteq> unitSize \<or> row \<noteq> [0]"
proof (rule tableCustom.raw_induct
    [where P = "\<lambda>h c options row ps y. snd ps 0 \<noteq> wideCell \<or> options \<noteq> unitSize \<or> row \<noteq> [0]",
     OF _ assms])
  fix tc h c options row ps y
  assume ih: "\<And>h c options row ps y. tc h c options row ps = Some y
      \<Longrightarrow> snd ps 0 \<noteq> wideCell \<or> options \<noteq> unitSize \<or> row \<noteq> [0]"
    and body: "(case tableRow h c options row ps of
        (ps1, secondLine', enabled) \<Rightarrow>
          if enabled then tc h c options secondLine' ps1 else Some ps1) = Some y"
  show "snd ps 0 \<noteq> wideCell \<or> options \<noteq> unitSize \<or> row \<noteq> [0]"
  proof (rule ccontr)
    assume "\<not> (snd ps 0 \<noteq> wideCell \<or> options \<noteq> unitSize \<or> row \<noteq> [0])"
    then have w: "snd ps 0 = wideCell" and o: "options = unitSize" and r: "row = [0]" by simp_all
    from tableRow_wide [OF w, of h c] obtain p1 st1
      where t: "tableRow h c unitSize [0] ps = ((p1, st1), [0], True)" and s: "st1 0 = wideCell"
      by blast
    from body t o r have "tc h c unitSize [0] (p1, st1) = Some y" by simp
    from ih [OF this] s show False by simp
  qed
qed

text \<open>
  C8. \<open>tableCustom([{ text: c, cols: 1 }])\<close> with \<open>c\<close> the character U+4E2D does not return: the character is
  two columns wide, the cell one, so the truncated text is empty, the remainder is
  the whole text, and the continuation row equals the row.
\<close>

theorem tableCustom_wide_cell_never_returns:
  "tableCustom h c unitSize [0] (p, \<lambda>a. wideCell) = None"
proof (cases "tableCustom h c unitSize [0] (p, \<lambda>a. wideCell)")
  case None
  then show ?thesis .
next
  case (Some y)
  from no_return_from_wideCell [OF this] show ?thesis by simp
qed

end
